theory Spec2Isabelle
  imports Main "HOL-Library.Word"
begin

section \<open>Clementine's PlaylistManager (src/playlist/playlistmanager.cpp)\<close>

text \<open>
  A shallow embedding of \<^verbatim>\<open>PlaylistManager\<close>: the manager is a record that every
  member function takes and returns; a failed \<^verbatim>\<open>Q_ASSERT\<close>, \<^verbatim>\<open>qFatal\<close> and the
  dereference of a null \<^verbatim>\<open>Playlist*\<close> or of the null model of a selection range
  are error values, and so is a loop that never ends; the signals the manager emits,
  its calls to the playlist backend and to the parser and its call of
  \<^verbatim>\<open>set_current_index\<close> on a playlist are appended, in program order, to a log that
  is part of the state.

  What an external collaborator answers (the id \<^verbatim>\<open>CreatePlaylist\<close> returns, the
  list \<^verbatim>\<open>GetAllPlaylists\<close> returns, the songs the parser reads from a file, the text
  of \<^verbatim>\<open>Utilities::WordyTime\<close>) is an argument of the function that asks for it.
  \<^verbatim>\<open>tr\<close> is the identity (no translator installed). The \<^verbatim>\<open>connect\<close> calls and
  \<^verbatim>\<open>set_sequence\<close> wire collaborators together and change nothing that is modelled;
  the signals a playlist emits by itself, which the manager only passes on, are not
  modelled either. A failed \<^verbatim>\<open>Q_ASSERT\<close> stops the program, as in a debug build.
  The functions that only forward to \<^verbatim>\<open>current()\<close> or \<^verbatim>\<open>active()\<close>
  (ClearCurrent, ShuffleCurrent, SetActivePlaying and the like) are left out.
  A C++ \<^verbatim>\<open>int\<close> the source computes with (the rows of a selection range, the loop
  counter and the count \<^verbatim>\<open>selected\<close> of UpdateSummaryText) is a \<open>32 word\<close>, read
  as two's complement, and its arithmetic wraps around as in the compiled program; an
  \<^verbatim>\<open>int\<close> the source only copies and compares (an id, a row count, a length field) is
  an \<open>int\<close>. \<^verbatim>\<open>quint64\<close> is \<open>64 word\<close>.
\<close>

subsection \<open>Songs, playlist items, playlists\<close>

text \<open>
  \<^verbatim>\<open>Song\<close>, \<^verbatim>\<open>PlaylistItem\<close> and \<^verbatim>\<open>Playlist\<close> are classes of the repository whose
  code is not in playlistmanager.cpp. The manager reads a song's id and length; the rest
  of its metadata is one field here.
\<close>

record Song =
  song_id :: int
  song_length :: int
  song_rest :: string

datatype PlaylistItem = LibraryPlaylistItem Song | SongPlaylistItem Song

fun Metadata :: "PlaylistItem \<Rightarrow> Song" where
  "Metadata (LibraryPlaylistItem m) = m"
| "Metadata (SongPlaylistItem m) = m"

record Playlist =
  pl_id :: int
  pl_items :: "PlaylistItem list"
  pl_current_index :: int

definition new_Playlist :: "int \<Rightarrow> Playlist" where
  \<comment> \<open>Modelled from the spec: Playlist's constructor is not in the source given. A new
      collection is bound to the id, has no items and no playing row.\<close>
  "new_Playlist pid = \<lparr>pl_id = pid, pl_items = [], pl_current_index = - 1\<rparr>"

definition set_current_index :: "int \<Rightarrow> Playlist \<Rightarrow> Playlist" where
  \<comment> \<open>Modelled from the spec: Playlist::set_current_index is not in the source given.
      SetPlayingRow(row|unset) sets the playing-row marker.\<close>
  "set_current_index i pl = pl\<lparr>pl_current_index := i\<rparr>"

definition rowCount :: "Playlist \<Rightarrow> int" where
  \<comment> \<open>Modelled from the spec: Playlist::rowCount is not in the source given. RowCount()
      is the number of items.\<close>
  "rowCount pl = int (length (pl_items pl))"

definition column_length :: "Playlist \<Rightarrow> int \<Rightarrow> int" where
  \<comment> \<open>Modelled from the spec: \<^verbatim>\<open>index(i, Playlist::Column_Length).data().toInt()\<close>, the
      length field of row i. Qt gives an invalid index for a row outside the model, its
      data is an invalid variant, and toInt of that is 0.\<close>
  "column_length pl i =
     (if 0 \<le> i \<and> i < rowCount pl then song_length (Metadata (pl_items pl ! nat i)) else 0)"

definition GetTotalLength :: "Playlist \<Rightarrow> 64 word" where
  \<comment> \<open>Modelled from the spec: Playlist::GetTotalLength is not in the source given.
      TotalDuration() is the duration of all rows, a row with no positive length adding
      nothing.\<close>
  "GetTotalLength pl =
     sum_list (map (\<lambda>it. if song_length (Metadata it) > 0
                          then word_of_int (song_length (Metadata it)) else 0) (pl_items pl))"

definition InsertSongs :: "Song list \<Rightarrow> Playlist \<Rightarrow> Playlist" where
  \<comment> \<open>Modelled from the spec: Playlist::InsertSongs is not in the source given.
      InsertItems(items) puts one item for each song at the end of the collection, in
      order; the items carry the songs and are not catalog-backed.\<close>
  "InsertSongs songs pl = pl\<lparr>pl_items := pl_items pl @ map SongPlaylistItem songs\<rparr>"

definition GetAllSongs :: "Playlist \<Rightarrow> Song list" where
  \<comment> \<open>Modelled from the spec: Playlist::GetAllSongs is not in the source given. AllItems()
      is the full ordered item list of the collection; the parser is given their songs.\<close>
  "GetAllSongs pl = map Metadata (pl_items pl)"

definition library_items_by_id :: "int \<Rightarrow> Playlist \<Rightarrow> nat list" where
  \<comment> \<open>Modelled from the spec: Playlist::library_items_by_id is not in the source given.
      ItemsReferencingEntity(id) is the list of the collection's catalog-backed items that
      reference the entity id; the shared pointers it returns are the rows of those items
      here.\<close>
  "library_items_by_id sid pl =
     filter (\<lambda>i. case pl_items pl ! i of
                    LibraryPlaylistItem m \<Rightarrow> song_id m = sid
                  | SongPlaylistItem m \<Rightarrow> False) [0 ..< length (pl_items pl)]"

fun SetMetadata :: "Song \<Rightarrow> PlaylistItem \<Rightarrow> PlaylistItem" where
  \<comment> \<open>Modelled from the spec: LibraryPlaylistItem::SetMetadata is not in the source given.
      It replaces the item's cached metadata by the discovered entity record. The
      static_cast of the source treats every item it is given as a LibraryPlaylistItem.\<close>
  "SetMetadata song (LibraryPlaylistItem m) = LibraryPlaylistItem song"
| "SetMetadata song (SongPlaylistItem m) = LibraryPlaylistItem song"

subsection \<open>The manager's state\<close>

text \<open>
  A selection range holds its model (the playlist it selects rows of, named by id), its
  top and its bottom row, both C++ ints. A range whose model is no playlist of the index
  (the playlist has been deleted) has a null model.
\<close>

record QItemSelectionRange =
  range_model :: int
  range_top :: "32 word"
  range_bottom :: "32 word"

text \<open>
  An entry of the index: the \<^verbatim>\<open>Playlist* p\<close> and the \<^verbatim>\<open>name\<close> that
  \<^verbatim>\<open>Data(ret, name)\<close>, \<^verbatim>\<open>data.p\<close> and \<^verbatim>\<open>playlists_[id].name\<close> use. The index
  owns its playlists, and no two entries share one, so an entry holds the playlist itself.
\<close>

record Data =
  data_p :: Playlist
  data_name :: string

datatype signal =
    PlaylistAdded int string
  | PlaylistRemoved int
  | PlaylistRenamed int string
  | CurrentChanged int
  | ActiveChanged int
  | SummaryTextChanged string
  | Error string

datatype effect =
    Emit signal
  | Backend_GetAllPlaylists
  | Backend_CreatePlaylist string
  | Backend_RemovePlaylist int
  | Backend_RenamePlaylist int string
  | Backend_SetPlaylistOrder "int list"
  | Parser_Load string
  | Parser_Save "Song list" string
  | Playlist_set_current_index int int

datatype error = AssertFailed | Fatal string | NullPointer | NeverReturns

text \<open>
  The fields \<^verbatim>\<open>playlists_\<close>, \<^verbatim>\<open>current_\<close>, \<^verbatim>\<open>active_\<close> and \<^verbatim>\<open>current_selection_\<close>
  (a name cannot end in an underscore here). The class declaration is in
  playlistmanager.h; the source uses \<^verbatim>\<open>playlists_\<close> as a Qt map from int to Data
  (\<^verbatim>\<open>contains\<close>, \<^verbatim>\<open>count\<close>, \<^verbatim>\<open>operator[]\<close>, \<^verbatim>\<open>take\<close>, \<^verbatim>\<open>constBegin\<close>). It is an
  association list here, its first pair being the entry at \<^verbatim>\<open>constBegin()\<close>; the
  insertions keep it in ascending key order, as a \<^verbatim>\<open>QMap\<close> is. The lemmas
  Remove_frame and Remove_first_dangling below hold for whichever entry comes first.
\<close>

record PlaylistManager =
  playlists :: "(int \<times> Data) list"
  current_id :: int
  active_id :: int
  current_selection :: "QItemSelectionRange list"
  effects :: "effect list"

definition PlaylistManager_ctor :: PlaylistManager where
  "PlaylistManager_ctor =
     \<lparr>playlists = [], current_id = - 1, active_id = - 1, current_selection = [], effects = []\<rparr>"

definition emit :: "signal \<Rightarrow> PlaylistManager \<Rightarrow> PlaylistManager" where
  "emit sg s = s\<lparr>effects := effects s @ [Emit sg]\<rparr>"

definition call :: "effect \<Rightarrow> PlaylistManager \<Rightarrow> PlaylistManager" where
  "call c s = s\<lparr>effects := effects s @ [c]\<rparr>"

subsection \<open>QMap operations\<close>

definition contains :: "PlaylistManager \<Rightarrow> int \<Rightarrow> bool" where
  "contains s pid = (map_of (playlists s) pid \<noteq> None)"

fun qmap_insert :: "int \<Rightarrow> 'v \<Rightarrow> (int \<times> 'v) list \<Rightarrow> (int \<times> 'v) list" where
  "qmap_insert k v [] = [(k, v)]"
| "qmap_insert k v ((k', v') # m) =
     (if k < k' then (k, v) # (k', v') # m
      else if k = k' then (k, v) # m
      else (k', v') # qmap_insert k v m)"

definition qmap_take :: "int \<Rightarrow> (int \<times> 'v) list \<Rightarrow> (int \<times> 'v) list" where
  "qmap_take k m = filter (\<lambda>kv. fst kv \<noteq> k) m"

definition qmap_modify :: "int \<Rightarrow> ('v \<Rightarrow> 'v) \<Rightarrow> (int \<times> 'v) list \<Rightarrow> (int \<times> 'v) list" where
  "qmap_modify k f m = map (\<lambda>kv. if fst kv = k then (fst kv, f (snd kv)) else kv) m"

definition playlist :: "PlaylistManager \<Rightarrow> int \<Rightarrow> Playlist option" where
  \<comment> \<open>Modelled from the spec: the accessors playlist(id), current() and active() are
      declared in playlistmanager.h, not in the source given. A cursor selects an entry
      of the index: \<^verbatim>\<open>playlists_[id].p\<close>, a null pointer when id is no key.\<close>
  "playlist s pid = map_option data_p (map_of (playlists s) pid)"

definition current :: "PlaylistManager \<Rightarrow> Playlist option" where
  "current s = playlist s (current_id s)"

definition active :: "PlaylistManager \<Rightarrow> Playlist option" where
  "active s = playlist s (active_id s)"

definition on_playlist :: "int \<Rightarrow> (Playlist \<Rightarrow> Playlist) \<Rightarrow> PlaylistManager \<Rightarrow> PlaylistManager" where
  \<comment> \<open>a call through the \<^verbatim>\<open>Playlist*\<close> of the entry with that key, which changes the playlist in place\<close>
  "on_playlist pid f s =
     s\<lparr>playlists := qmap_modify pid (\<lambda>d. d\<lparr>data_p := f (data_p d)\<rparr>) (playlists s)\<rparr>"

subsection \<open>Strings\<close>

fun digits :: "nat \<Rightarrow> string" where
  "digits n =
     (if n < 10 then [''0123456789'' ! n]
      else digits (n div 10) @ [''0123456789'' ! (n mod 10)])"

declare digits.simps [simp del]

definition arg_int :: "int \<Rightarrow> string" where
  \<comment> \<open>the text \<^verbatim>\<open>QString::arg(int)\<close> puts in place of \<^verbatim>\<open>%1\<close>\<close>
  "arg_int n = (if n < 0 then CHR ''-'' # digits (nat (- n)) else digits (nat n))"

definition fileName :: "string \<Rightarrow> string" where
  \<comment> \<open>QFileInfo: the name of the file, without the path\<close>
  "fileName path = rev (takeWhile (\<lambda>c. c \<noteq> CHR ''/'') (rev path))"

definition baseName :: "string \<Rightarrow> string" where
  \<comment> \<open>QFileInfo::baseName: the file name up to, not including, its first dot\<close>
  "baseName path = takeWhile (\<lambda>c. c \<noteq> CHR ''.'') (fileName path)"

definition completeBaseName :: "string \<Rightarrow> string" where
  \<comment> \<open>QFileInfo::completeBaseName: the file name up to, not including, its last dot\<close>
  "completeBaseName path =
     (let f = fileName path
      in if CHR ''.'' \<in> set f then rev (tl (dropWhile (\<lambda>c. c \<noteq> CHR ''.'') (rev f))) else f)"

subsection \<open>UpdateSummaryText\<close>

text \<open>
  \<^verbatim>\<open>for (int i=range.top() ; i<=range.bottom() ; ++i)\<close>: when the bottom row is the
  largest int, \<^verbatim>\<open>i <= bottom\<close> holds for every int and the loop does not end, so the
  loop is a partial function and \<open>None\<close> stands for a loop that never returns.
\<close>

partial_function (option) rows_loop ::
  "Playlist \<Rightarrow> 32 word \<Rightarrow> 32 word \<Rightarrow> 64 word \<Rightarrow> 64 word option" where
  "rows_loop m i bottom seconds =
     (if sint i \<le> sint bottom
      then rows_loop m (i + 1) bottom
             (let len = column_length m (sint i)
              in if len > 0 then seconds + word_of_int len else seconds)
      else Some seconds)"

declare rows_loop.simps [code]

fun selection_loop ::
  "PlaylistManager \<Rightarrow> QItemSelectionRange list \<Rightarrow> 32 word \<Rightarrow> 64 word
     \<Rightarrow> error + (32 word \<times> 64 word)" where
  "selection_loop s [] selected seconds = Inr (selected, seconds)"
| "selection_loop s (rng # rest) selected seconds =
     (let selected' = selected + (range_bottom rng - range_top rng + 1)
      in if sint (range_top rng) \<le> sint (range_bottom rng)
         then (case playlist s (range_model rng) of
                 None \<Rightarrow> Inl NullPointer
               | Some m \<Rightarrow>
                   (case rows_loop m (range_top rng) (range_bottom rng) seconds of
                      None \<Rightarrow> Inl NeverReturns
                    | Some seconds' \<Rightarrow> selection_loop s rest selected' seconds'))
         else selection_loop s rest selected' seconds)"

definition UpdateSummaryText ::
  "(64 word \<Rightarrow> string) \<Rightarrow> PlaylistManager \<Rightarrow> error + PlaylistManager" where
  "UpdateSummaryText WordyTime s =
     (case current s of
        None \<Rightarrow> Inl NullPointer
      | Some cur \<Rightarrow>
          let tracks = rowCount cur
          in (case selection_loop s (current_selection s) 0 0 of
                Inl e \<Rightarrow> Inl e
              | Inr (selected, seconds0) \<Rightarrow>
                  let summary0 = (if sint selected > 1
                                  then arg_int (sint selected) @ '' selected of'' @ '' ''
                                  else []);
                      seconds = (if sint selected > 1 then seconds0 else GetTotalLength cur);
                      summary1 = summary0 @ (if tracks = 1 then ''1 track''
                                             else arg_int tracks @ '' tracks'');
                      summary2 = (if seconds \<noteq> 0
                                  then summary1 @ '' - [ '' @ WordyTime seconds @ '' ]''
                                  else summary1)
                  in Inr (emit (SummaryTextChanged summary2) s)))"

definition SelectionChanged ::
  "(64 word \<Rightarrow> string) \<Rightarrow> QItemSelectionRange list \<Rightarrow> PlaylistManager
     \<Rightarrow> error + PlaylistManager" where
  "SelectionChanged WordyTime selection s =
     UpdateSummaryText WordyTime (s\<lparr>current_selection := selection\<rparr>)"

subsection \<open>Cursors\<close>

definition SetCurrentPlaylist ::
  "(64 word \<Rightarrow> string) \<Rightarrow> int \<Rightarrow> PlaylistManager \<Rightarrow> error + PlaylistManager" where
  "SetCurrentPlaylist WordyTime pid s =
     (if \<not> contains s pid then Inl AssertFailed
      else UpdateSummaryText WordyTime (emit (CurrentChanged pid) (s\<lparr>current_id := pid\<rparr>)))"

definition unset_old_active :: "int \<Rightarrow> PlaylistManager \<Rightarrow> error + PlaylistManager" where
  \<comment> \<open>\<^verbatim>\<open>if (active_ != -1 && active_ != id) active()->set_current_index(-1);\<close>\<close>
  "unset_old_active pid s =
     (if active_id s \<noteq> - 1 \<and> active_id s \<noteq> pid
      then (case active s of
              None \<Rightarrow> Inl NullPointer
            | Some a \<Rightarrow>
                Inr (on_playlist (active_id s) (set_current_index (- 1))
                       (call (Playlist_set_current_index (active_id s) (- 1)) s)))
      else Inr s)"

definition SetActivePlaylist :: "int \<Rightarrow> PlaylistManager \<Rightarrow> error + PlaylistManager" where
  "SetActivePlaylist pid s =
     (if \<not> contains s pid then Inl AssertFailed
      else (case unset_old_active pid s of
              Inl e \<Rightarrow> Inl e
            | Inr s1 \<Rightarrow> Inr (emit (ActiveChanged pid) (s1\<lparr>active_id := pid\<rparr>))))"

subsection \<open>Lifecycle\<close>

definition AddPlaylist ::
  "(64 word \<Rightarrow> string) \<Rightarrow> int \<Rightarrow> string \<Rightarrow> PlaylistManager \<Rightarrow> error + PlaylistManager" where
  "AddPlaylist WordyTime pid name s =
     (let s1 = emit (PlaylistAdded pid name)
                 (s\<lparr>playlists :=
                      qmap_insert pid \<lparr>data_p = new_Playlist pid, data_name = name\<rparr> (playlists s)\<rparr>)
      in (case (if current_id s1 = - 1 then SetCurrentPlaylist WordyTime pid s1 else Inr s1) of
            Inl e \<Rightarrow> Inl e
          | Inr s2 \<Rightarrow> if active_id s2 = - 1 then SetActivePlaylist pid s2 else Inr s2))"

definition New ::
  "(64 word \<Rightarrow> string) \<Rightarrow> int \<Rightarrow> string \<Rightarrow> Song list \<Rightarrow> PlaylistManager
     \<Rightarrow> error + PlaylistManager" where
  \<comment> \<open>created is what \<^verbatim>\<open>playlist_backend_->CreatePlaylist(name)\<close> returns\<close>
  "New WordyTime created name songs s =
     (let s0 = call (Backend_CreatePlaylist name) s; pid = created
      in if pid = - 1 then Inl (Fatal ''Couldn't create playlist'')
         else (case AddPlaylist WordyTime pid name s0 of
                 Inl e \<Rightarrow> Inl e
               | Inr s1 \<Rightarrow> SetCurrentPlaylist WordyTime pid (on_playlist pid (InsertSongs songs) s1)))"

fun AddPlaylists ::
  "(64 word \<Rightarrow> string) \<Rightarrow> (int \<times> string) list \<Rightarrow> PlaylistManager \<Rightarrow> error + PlaylistManager" where
  \<comment> \<open>the foreach loop of Init\<close>
  "AddPlaylists WordyTime [] s = Inr s"
| "AddPlaylists WordyTime (p # ps) s =
     (case AddPlaylist WordyTime (fst p) (snd p) s of
        Inl e \<Rightarrow> Inl e
      | Inr s1 \<Rightarrow> AddPlaylists WordyTime ps s1)"

definition Init ::
  "(64 word \<Rightarrow> string) \<Rightarrow> (int \<times> string) list \<Rightarrow> int \<Rightarrow> PlaylistManager
     \<Rightarrow> error + PlaylistManager" where
  \<comment> \<open>stored is what \<^verbatim>\<open>playlist_backend->GetAllPlaylists()\<close> returns, created what
      CreatePlaylist would return\<close>
  "Init WordyTime stored created s =
     (case AddPlaylists WordyTime stored (call Backend_GetAllPlaylists s) of
        Inl e \<Rightarrow> Inl e
      | Inr s1 \<Rightarrow> if playlists s1 = [] then New WordyTime created ''Playlist'' [] s1 else Inr s1)"

definition Load ::
  "(64 word \<Rightarrow> string) \<Rightarrow> Song list \<Rightarrow> int \<Rightarrow> string \<Rightarrow> PlaylistManager
     \<Rightarrow> error + PlaylistManager" where
  \<comment> \<open>parsed is what \<^verbatim>\<open>parser_->Load(filename)\<close> returns\<close>
  "Load WordyTime parsed created filename s =
     (let s0 = call (Parser_Load filename) s; songs = parsed
      in if songs = []
         then Inr (emit (Error (''The playlist '' @ [CHR 0x27] @ completeBaseName filename
                                 @ [CHR 0x27] @ '' was empty or could not be loaded.'')) s0)
         else New WordyTime created (baseName filename) songs s0)"

definition Save :: "int \<Rightarrow> string \<Rightarrow> PlaylistManager \<Rightarrow> error + PlaylistManager" where
  "Save pid filename s =
     (if \<not> contains s pid then Inl AssertFailed
      else (case playlist s pid of
              None \<Rightarrow> Inl NullPointer
            | Some pl \<Rightarrow> Inr (call (Parser_Save (GetAllSongs pl) filename) s)))"

definition Rename :: "int \<Rightarrow> string \<Rightarrow> PlaylistManager \<Rightarrow> error + PlaylistManager" where
  "Rename pid new_name s =
     (if \<not> contains s pid then Inl AssertFailed
      else let s0 = call (Backend_RenamePlaylist pid new_name) s;
               s1 = s0\<lparr>playlists := qmap_modify pid (\<lambda>d. d\<lparr>data_name := new_name\<rparr>) (playlists s0)\<rparr>
           in Inr (emit (PlaylistRenamed pid new_name) s1))"

definition Remove ::
  "(64 word \<Rightarrow> string) \<Rightarrow> int \<Rightarrow> PlaylistManager \<Rightarrow> error + PlaylistManager" where
  "Remove WordyTime pid s =
     (if \<not> contains s pid then Inl AssertFailed
      else if length (playlists s) \<le> 1 then Inr s
      else let s0 = call (Backend_RemovePlaylist pid) s
           in (case playlists s0 of
                 [] \<Rightarrow> Inl NullPointer
               | first # _ \<Rightarrow>
                   let next_id = pl_id (data_p (snd first))
                   in (case (if pid = active_id s0 then SetActivePlaylist next_id s0 else Inr s0) of
                         Inl e \<Rightarrow> Inl e
                       | Inr s1 \<Rightarrow>
                          (case (if pid = current_id s1
                                 then SetCurrentPlaylist WordyTime next_id s1 else Inr s1) of
                             Inl e \<Rightarrow> Inl e
                           | Inr s2 \<Rightarrow>
                               Inr (emit (PlaylistRemoved pid)
                                      (s2\<lparr>playlists := qmap_take pid (playlists s2)\<rparr>))))))"

definition ChangePlaylistOrder :: "int list \<Rightarrow> PlaylistManager \<Rightarrow> PlaylistManager" where
  "ChangePlaylistOrder ids s = call (Backend_SetPlaylistOrder ids) s"

subsection \<open>SongsDiscovered\<close>

definition set_item_metadata :: "Song \<Rightarrow> nat \<Rightarrow> Playlist \<Rightarrow> Playlist" where
  \<comment> \<open>\<^verbatim>\<open>item->SetMetadata(song)\<close> through the shared pointer to the item at a row\<close>
  "set_item_metadata song i pl =
     pl\<lparr>pl_items := (pl_items pl)[i := SetMetadata song (pl_items pl ! i)]\<rparr>"

definition update_playlist :: "Song \<Rightarrow> Playlist \<Rightarrow> Playlist" where
  \<comment> \<open>the innermost foreach, over the items library_items_by_id returned\<close>
  "update_playlist song pl =
     fold (set_item_metadata song) (library_items_by_id (song_id song) pl) pl"

definition update_playlists :: "Song \<Rightarrow> PlaylistManager \<Rightarrow> PlaylistManager" where
  \<comment> \<open>the foreach over \<^verbatim>\<open>playlists_\<close>: every entry's playlist, through its own pointer\<close>
  "update_playlists song s =
     s\<lparr>playlists :=
         map (\<lambda>kd. (fst kd, (snd kd)\<lparr>data_p := update_playlist song (data_p (snd kd))\<rparr>))
           (playlists s)\<rparr>"

definition SongsDiscovered :: "Song list \<Rightarrow> PlaylistManager \<Rightarrow> PlaylistManager" where
  "SongsDiscovered songs s = fold update_playlists songs s"

subsection \<open>The properties, in the specification's words\<close>

definition invariant :: "PlaylistManager \<Rightarrow> bool" where
  \<comment> \<open>the index holds a collection and both cursors are keys of the index\<close>
  "invariant s =
     (playlists s \<noteq> [] \<and> contains s (current_id s) \<and> contains s (active_id s))"

definition selection_ok :: "PlaylistManager \<Rightarrow> bool" where
  \<comment> \<open>every range of the selection snapshot ends below the largest int and, when it has
      rows, selects them in a playlist of the index\<close>
  "selection_ok s =
     list_all (\<lambda>r. sint (range_bottom r) < 2147483647
                  \<and> (sint (range_bottom r) < sint (range_top r) \<or> contains s (range_model r)))
       (current_selection s)"

definition models_ok :: "PlaylistManager \<Rightarrow> bool" where
  \<comment> \<open>every range of the selection snapshot that has rows selects them in a playlist
      of the index\<close>
  "models_ok s =
     list_all (\<lambda>r. sint (range_bottom r) < sint (range_top r) \<or> contains s (range_model r))
       (current_selection s)"

definition never_ends :: "QItemSelectionRange list \<Rightarrow> bool" where
  \<comment> \<open>some range has the largest int as its bottom row: the loop over its rows does
      not end\<close>
  "never_ends sel = list_ex (\<lambda>r. sint (range_bottom r) = 2147483647) sel"

definition range_length :: "QItemSelectionRange \<Rightarrow> int" where
  "range_length r = sint (range_bottom r) - sint (range_top r) + 1"

definition selectedCount :: "QItemSelectionRange list \<Rightarrow> int" where
  \<comment> \<open>the sum of the range lengths\<close>
  "selectedCount sel = sum_list (map range_length sel)"

definition as_int32 :: "int \<Rightarrow> int" where
  \<comment> \<open>a number as the C++ int that holds it: itself from -2^31 up to 2^31 - 1, and
      wrapped around into these bounds otherwise\<close>
  "as_int32 k = sint (word_of_int k :: 32 word)"

definition range_seconds :: "PlaylistManager \<Rightarrow> QItemSelectionRange \<Rightarrow> int" where
  \<comment> \<open>the lengths of the rows of a range, a row counting only when its length is positive\<close>
  "range_seconds s r =
     (case playlist s (range_model r) of
        None \<Rightarrow> 0
      | Some m \<Rightarrow> sum_list (map (\<lambda>i. if column_length m i > 0 then column_length m i else 0)
                              [sint (range_top r) .. sint (range_bottom r)]))"

definition selectedSeconds :: "PlaylistManager \<Rightarrow> QItemSelectionRange list \<Rightarrow> int" where
  "selectedSeconds s sel = sum_list (map (range_seconds s) sel)"

fun sync_item :: "Song list \<Rightarrow> PlaylistItem \<Rightarrow> PlaylistItem" where
  \<comment> \<open>a catalog-backed item takes the record of the last discovered entity that has the
      id it references; any other item stays as it is\<close>
  "sync_item songs (LibraryPlaylistItem m) =
     (case find (\<lambda>sg. song_id sg = song_id m) (rev songs) of
        None \<Rightarrow> LibraryPlaylistItem m
      | Some sg \<Rightarrow> LibraryPlaylistItem sg)"
| "sync_item songs (SongPlaylistItem m) = SongPlaylistItem m"

definition sync_playlists :: "Song list \<Rightarrow> (int \<times> Data) list \<Rightarrow> (int \<times> Data) list" where
  "sync_playlists songs m =
     map (\<lambda>kd. (fst kd, (snd kd)\<lparr>data_p :=
                     (data_p (snd kd))\<lparr>pl_items := map (sync_item songs) (pl_items (data_p (snd kd)))\<rparr>\<rparr>))
       m"

definition sync_step :: "Song \<Rightarrow> PlaylistItem \<Rightarrow> PlaylistItem" where
  \<comment> \<open>what the discovery of one song does to one item\<close>
  "sync_step sg it =
     (case it of
        LibraryPlaylistItem m \<Rightarrow> if song_id m = song_id sg then LibraryPlaylistItem sg else it
      | SongPlaylistItem m \<Rightarrow> it)"

definition items_of :: "PlaylistManager \<Rightarrow> nat \<Rightarrow> PlaylistItem list" where
  \<comment> \<open>the items of the n-th playlist of the index\<close>
  "items_of s n = pl_items (data_p (snd (playlists s ! n)))"

definition and_then ::
  "error + PlaylistManager \<Rightarrow> (PlaylistManager \<Rightarrow> error + PlaylistManager)
     \<Rightarrow> error + PlaylistManager" where
  \<comment> \<open>one call after another; nothing runs after an error\<close>
  "and_then r f = (case r of Inl e \<Rightarrow> Inl e | Inr s \<Rightarrow> f s)"

definition cursors :: "error + PlaylistManager \<Rightarrow> error + (int list \<times> int \<times> int)" where
  \<comment> \<open>the keys of the index, the current cursor and the active cursor of a result\<close>
  "cursors r =
     (case r of Inl e \<Rightarrow> Inl e
      | Inr s \<Rightarrow> Inr (map fst (playlists s), current_id s, active_id s))"

subsection \<open>Example states\<close>

definition WordyTime_mss :: "64 word \<Rightarrow> string" where
  \<comment> \<open>Modelled from the spec: Utilities::WordyTime is not in the source given. The
      examples of the specification write 185 seconds as 3:05 and 105 seconds as 1:45:
      the minutes, a colon, the seconds on two digits.\<close>
  "WordyTime_mss secs =
     digits (unat secs div 60) @ '':'' @ digits (unat secs mod 60 div 10)
       @ digits (unat secs mod 10)"

definition two_playlists :: PlaylistManager where
  \<comment> \<open>the manager after Init, the backend holding the playlists 1 and 2\<close>
  "two_playlists =
     \<lparr>playlists = [(1, \<lparr>data_p = new_Playlist 1, data_name = ''A''\<rparr>),
                   (2, \<lparr>data_p = new_Playlist 2, data_name = ''B''\<rparr>)],
      current_id = 1, active_id = 1, current_selection = [],
      effects = [Backend_GetAllPlaylists, Emit (PlaylistAdded 1 ''A''), Emit (CurrentChanged 1),
                 Emit (SummaryTextChanged ''0 tracks''), Emit (ActiveChanged 1),
                 Emit (PlaylistAdded 2 ''B'')]\<rparr>"

definition one_playlist :: PlaylistManager where
  \<comment> \<open>the manager after Init, the backend holding no playlist and creating number 7\<close>
  "one_playlist =
     \<lparr>playlists = [(7, \<lparr>data_p = new_Playlist 7, data_name = ''Playlist''\<rparr>)],
      current_id = 7, active_id = 7, current_selection = [],
      effects = [Backend_GetAllPlaylists, Backend_CreatePlaylist ''Playlist'',
                 Emit (PlaylistAdded 7 ''Playlist''), Emit (CurrentChanged 7),
                 Emit (SummaryTextChanged ''0 tracks''), Emit (ActiveChanged 7),
                 Emit (CurrentChanged 7), Emit (SummaryTextChanged ''0 tracks'')]\<rparr>"

definition song :: "int \<Rightarrow> int \<Rightarrow> Song" where
  "song i len = \<lparr>song_id = i, song_length = len, song_rest = []\<rparr>"

definition five_tracks :: PlaylistManager where
  \<comment> \<open>one playlist of five rows, the first three selected\<close>
  "five_tracks =
     \<lparr>playlists =
        [(1, \<lparr>data_p = \<lparr>pl_id = 1,
                         pl_items = [LibraryPlaylistItem (song 10 40), SongPlaylistItem (song 11 0),
                                     LibraryPlaylistItem (song 12 65), LibraryPlaylistItem (song 10 50),
                                     SongPlaylistItem (song 10 30)],
                         pl_current_index = 2\<rparr>,
              data_name = ''A''\<rparr>)],
      current_id = 1, active_id = 1,
      current_selection = [\<lparr>range_model = 1, range_top = 0, range_bottom = 2\<rparr>],
      effects = []\<rparr>"

definition two_playing :: PlaylistManager where
  \<comment> \<open>two playlists; playlist 1 is current and active, and its row 0 is playing\<close>
  "two_playing =
     \<lparr>playlists = [(1, \<lparr>data_p = \<lparr>pl_id = 1, pl_items = [SongPlaylistItem (song 3 200)],
                                   pl_current_index = 0\<rparr>,
                        data_name = ''A''\<rparr>),
                   (2, \<lparr>data_p = new_Playlist 2, data_name = ''B''\<rparr>)],
      current_id = 1, active_id = 1, current_selection = [], effects = []\<rparr>"

definition both_dangling :: PlaylistManager where
  \<comment> \<open>what Remove(1) leaves of two_playlists\<close>
  "both_dangling =
     \<lparr>playlists = [(2, \<lparr>data_p = new_Playlist 2, data_name = ''B''\<rparr>)],
      current_id = 1, active_id = 1, current_selection = [],
      effects = effects two_playlists @
        [Backend_RemovePlaylist 1, Emit (ActiveChanged 1), Emit (CurrentChanged 1),
         Emit (SummaryTextChanged ''0 tracks''), Emit (PlaylistRemoved 1)]\<rparr>"

definition discovered :: Song where
  "discovered = \<lparr>song_id = 10, song_length = 41, song_rest = ''retagged''\<rparr>"

definition many_ranges :: PlaylistManager where
  \<comment> \<open>one playlist of 1000 rows of one second each; the selection snapshot holds the
      range of all its rows 2147484 times\<close>
  "many_ranges =
     \<lparr>playlists =
        [(1, \<lparr>data_p = \<lparr>pl_id = 1, pl_items = replicate 1000 (SongPlaylistItem (song 1 1)),
                         pl_current_index = - 1\<rparr>,
              data_name = ''A''\<rparr>)],
      current_id = 1, active_id = 1,
      current_selection = replicate 2147484 \<lparr>range_model = 1, range_top = 0, range_bottom = 999\<rparr>,
      effects = []\<rparr>"


section \<open>Properties\<close>

subsection \<open>The index as a map\<close>

lemma contains_playlist: "contains s k = (playlist s k \<noteq> None)"
  by (simp add: contains_def playlist_def)

lemma map_of_qmap_modify:
  "map_of (qmap_modify k f m) k' = (if k' = k then map_option f (map_of m k') else map_of m k')"
  by (induction m) (auto simp: qmap_modify_def)

lemma map_of_qmap_insert:
  "map_of (qmap_insert k v m) k' = (if k' = k then Some v else map_of m k')"
  by (induction m) auto

lemma playlist_on_playlist:
  "playlist (on_playlist k f s) k' =
     (if k' = k then map_option f (playlist s k') else playlist s k')"
  by (cases "map_of (playlists s) k'")
     (auto simp: playlist_def on_playlist_def map_of_qmap_modify)

lemma contains_on_playlist: "contains (on_playlist k f s) k' = contains s k'"
  by (simp add: contains_def on_playlist_def map_of_qmap_modify)

subsection \<open>Reorder\<close>

text \<open>
  C9: ChangePlaylistOrder passes the whole list of ids to the backend's SetPlaylistOrder
  and changes nothing of the manager: the index, both cursors and the selection snapshot
  are as before, and the only new entry of the log is the call to the backend, so no
  signal is emitted.
\<close>

theorem ChangePlaylistOrder_frame:
  "playlists (ChangePlaylistOrder ids s) = playlists s \<and>
   current_id (ChangePlaylistOrder ids s) = current_id s \<and>
   active_id (ChangePlaylistOrder ids s) = active_id s \<and>
   current_selection (ChangePlaylistOrder ids s) = current_selection s \<and>
   effects (ChangePlaylistOrder ids s) = effects s @ [Backend_SetPlaylistOrder ids]"
  by (simp add: ChangePlaylistOrder_def call_def)

subsection \<open>SetActivePlaylist\<close>

text \<open>
  C10: SetActivePlaylist with the id that is active already leaves every playlist as it
  is, its playing-row marker included; the active cursor is that id afterwards and the
  signal ActiveChanged is emitted.
\<close>

theorem SetActivePlaylist_same_id:
  assumes "contains s pid" and "active_id s = pid"
  shows "SetActivePlaylist pid s = Inr (s\<lparr>effects := effects s @ [Emit (ActiveChanged pid)]\<rparr>)"
  using assms by (simp add: SetActivePlaylist_def unset_old_active_def emit_def)

theorem SetActivePlaylist_same_id_witness:
  "contains two_playlists 1 \<and> active_id two_playlists = 1 \<and>
   SetActivePlaylist 1 two_playlists =
     Inr (two_playlists\<lparr>effects := effects two_playlists @ [Emit (ActiveChanged 1)]\<rparr>)"
  using SetActivePlaylist_same_id [of two_playlists 1]
  by (simp add: two_playlists_def contains_def)

text \<open>
  C4: SetActivePlaylist with an id of the index other than the active one, the active
  cursor being set. When the active playlist is in the index, the log grows by the call
  \<^verbatim>\<open>set_current_index(-1)\<close> on the playlist that was active, made through
  \<^verbatim>\<open>active()\<close> and so while the cursor was still on it, and after it by the signal
  ActiveChanged; in the state returned the playing-row marker of that playlist is -1
  and the active cursor is the new id. When the active cursor is on no playlist of the
  index, the call through \<^verbatim>\<open>active()\<close> is a null dereference: the cursor is not
  changed and no signal is emitted.
\<close>

theorem SetActivePlaylist_unsets_first:
  assumes "contains s pid" and "active_id s \<noteq> - 1" and "active_id s \<noteq> pid"
  shows "(contains s (active_id s) \<longrightarrow>
            SetActivePlaylist pid s =
              Inr (s\<lparr>playlists := qmap_modify (active_id s)
                                     (\<lambda>d. d\<lparr>data_p := (data_p d)\<lparr>pl_current_index := - 1\<rparr>\<rparr>)
                                     (playlists s),
                      active_id := pid,
                      effects := effects s @ [Playlist_set_current_index (active_id s) (- 1),
                                              Emit (ActiveChanged pid)]\<rparr>)
            \<and> map_option pl_current_index
                  (map_option data_p
                     (map_of (qmap_modify (active_id s)
                                (\<lambda>d. d\<lparr>data_p := (data_p d)\<lparr>pl_current_index := - 1\<rparr>\<rparr>)
                                (playlists s))
                             (active_id s))) = Some (- 1))
         \<and> (\<not> contains s (active_id s) \<longrightarrow> SetActivePlaylist pid s = Inl NullPointer)"
proof (intro conjI impI)
  assume c: "contains s (active_id s)"
  then obtain a where a: "playlist s (active_id s) = Some a"
    by (auto simp: contains_playlist)
  then show "SetActivePlaylist pid s =
              Inr (s\<lparr>playlists := qmap_modify (active_id s)
                                     (\<lambda>d. d\<lparr>data_p := (data_p d)\<lparr>pl_current_index := - 1\<rparr>\<rparr>)
                                     (playlists s),
                      active_id := pid,
                      effects := effects s @ [Playlist_set_current_index (active_id s) (- 1),
                                              Emit (ActiveChanged pid)]\<rparr>)"
    using assms
    by (simp add: SetActivePlaylist_def unset_old_active_def active_def on_playlist_def
          set_current_index_def call_def emit_def)
  from c obtain d where "map_of (playlists s) (active_id s) = Some d"
    by (auto simp: contains_def)
  then show "map_option pl_current_index
                  (map_option data_p
                     (map_of (qmap_modify (active_id s)
                                (\<lambda>d. d\<lparr>data_p := (data_p d)\<lparr>pl_current_index := - 1\<rparr>\<rparr>)
                                (playlists s))
                             (active_id s))) = Some (- 1)"
    by (simp add: map_of_qmap_modify)
next
  assume "\<not> contains s (active_id s)"
  then have "playlist s (active_id s) = None"
    by (simp add: contains_playlist)
  then show "SetActivePlaylist pid s = Inl NullPointer"
    using assms
    by (simp add: SetActivePlaylist_def unset_old_active_def active_def)
qed

theorem SetActivePlaylist_unsets_first_witness:
  "contains two_playing 2 \<and> active_id two_playing \<noteq> - 1 \<and> active_id two_playing \<noteq> 2 \<and>
   contains two_playing (active_id two_playing) \<and>
   map_option pl_current_index (playlist two_playing 1) = Some 0 \<and>
   SetActivePlaylist 2 two_playing =
     Inr \<lparr>playlists = [(1, \<lparr>data_p = \<lparr>pl_id = 1, pl_items = [SongPlaylistItem (song 3 200)],
                                        pl_current_index = - 1\<rparr>,
                             data_name = ''A''\<rparr>),
                        (2, \<lparr>data_p = new_Playlist 2, data_name = ''B''\<rparr>)],
          current_id = 1, active_id = 2, current_selection = [],
          effects = [Playlist_set_current_index 1 (- 1), Emit (ActiveChanged 2)]\<rparr> \<and>
   \<not> contains both_dangling (active_id both_dangling) \<and>
   SetActivePlaylist 2 both_dangling = Inl NullPointer"
proof -
  have pre: "contains two_playing 2" "active_id two_playing \<noteq> - 1" "active_id two_playing \<noteq> 2"
    "contains two_playing (active_id two_playing)"
    "map_option pl_current_index (playlist two_playing 1) = Some 0"
    by (simp_all add: two_playing_def contains_def playlist_def)
  have "SetActivePlaylist 2 two_playing =
     Inr \<lparr>playlists = [(1, \<lparr>data_p = \<lparr>pl_id = 1, pl_items = [SongPlaylistItem (song 3 200)],
                                        pl_current_index = - 1\<rparr>,
                             data_name = ''A''\<rparr>),
                        (2, \<lparr>data_p = new_Playlist 2, data_name = ''B''\<rparr>)],
          current_id = 1, active_id = 2, current_selection = [],
          effects = [Playlist_set_current_index 1 (- 1), Emit (ActiveChanged 2)]\<rparr>"
    using SetActivePlaylist_unsets_first [OF pre(1,2,3)] pre(4)
    by (simp add: two_playing_def qmap_modify_def)
  moreover have dangling: "contains both_dangling 2" "active_id both_dangling \<noteq> - 1"
    "active_id both_dangling \<noteq> 2" "\<not> contains both_dangling (active_id both_dangling)"
    by (simp_all add: both_dangling_def contains_def)
  moreover have "SetActivePlaylist 2 both_dangling = Inl NullPointer"
    using SetActivePlaylist_unsets_first [OF dangling(1,2,3)] dangling(4) by simp
  ultimately show ?thesis using pre by simp
qed

subsection \<open>Removing the last playlist\<close>

text \<open>
  C3: when the index holds one playlist only, Remove of that playlist returns normally
  (no assertion fails, no error is signalled) and the manager is what it was: the index,
  both cursors and the log are unchanged, so the backend is not called and
  PlaylistRemoved is not emitted.
\<close>

theorem Remove_last_is_noop:
  assumes "map fst (playlists s) = [pid]"
  shows "Remove WordyTime pid s = Inr s"
proof -
  from assms obtain d where "playlists s = [(pid, d)]"
    by (cases "playlists s") auto
  then show ?thesis by (simp add: Remove_def contains_def)
qed

theorem Remove_last_is_noop_witness:
  "map fst (playlists one_playlist) = [7] \<and> Remove WordyTime_mss 7 one_playlist = Inr one_playlist"
  using Remove_last_is_noop [of one_playlist 7 WordyTime_mss]
  by (simp add: one_playlist_def)

subsection \<open>The summary text\<close>

lemma sint_Suc_32:
  assumes "sint (i :: 32 word) < 2147483647"
  shows "sint (i + 1) = sint i + 1"
proof -
  have "- (2 ^ 31) \<le> sint i" using sint_ge [of i] by simp
  with assms have "signed_take_bit 31 (sint i + 1) = sint i + 1"
    by (intro signed_take_bit_int_eq_self) simp_all
  then show ?thesis by (simp add: sint_word_ariths)
qed

lemma rows_loop_sum:
  assumes "sint bottom < 2147483647"
  shows "rows_loop m i bottom seconds =
     Some (seconds + word_of_int
       (sum_list (map (\<lambda>k. if column_length m k > 0 then column_length m k else 0)
                   [sint i .. sint bottom])))"
proof (induction "nat (sint bottom + 1 - sint i)" arbitrary: i seconds)
  case 0
  then have gt: "\<not> sint i \<le> sint bottom" by simp
  then have "[sint i .. sint bottom] = []" by simp
  with gt show ?case by (subst rows_loop.simps) simp
next
  case (Suc n)
  then have le: "sint i \<le> sint bottom" by simp
  with assms have s: "sint (i + 1) = sint i + 1" by (intro sint_Suc_32) simp
  with Suc.hyps(2) have n: "n = nat (sint bottom + 1 - sint (i + 1))" by simp
  have u: "[sint i .. sint bottom] = sint i # [sint (i + 1) .. sint bottom]"
    using le s by (simp add: upto_rec1)
  show ?case
    using le Suc.hyps(1) [OF n]
    by (subst rows_loop.simps) (simp add: u Let_def)
qed

lemma rows_loop_returns_below_max:
  assumes "rows_loop m i bottom seconds = Some y"
  shows "sint bottom < 2147483647"
proof (rule rows_loop.raw_induct
         [where P = "\<lambda>m i bottom seconds y. sint bottom < 2147483647", OF _ assms])
  fix rl :: "Playlist \<Rightarrow> 32 word \<Rightarrow> 32 word \<Rightarrow> 64 word \<Rightarrow> 64 word option"
    and m i bottom seconds y
  assume IH: "\<And>m i bottom seconds y. rl m i bottom seconds = Some y \<Longrightarrow> sint bottom < 2147483647"
    and body: "(if sint i \<le> sint bottom
      then rl m (i + 1) bottom
             (let len = column_length m (sint i)
              in if len > 0 then seconds + word_of_int len else seconds)
      else Some seconds) = Some y"
  show "sint bottom < 2147483647"
  proof (cases "sint i \<le> sint bottom")
    case True
    with body have "rl m (i + 1) bottom
             (let len = column_length m (sint i)
              in if len > 0 then seconds + word_of_int len else seconds) = Some y"
      by simp
    then show ?thesis by (rule IH)
  next
    case False
    moreover have "sint i < 2147483648" using sint_lt [of i] by simp
    ultimately show ?thesis by simp
  qed
qed

lemma rows_loop_never_returns:
  "sint bottom = 2147483647 \<Longrightarrow> rows_loop m i bottom seconds = None"
  using rows_loop_returns_below_max [of m i bottom seconds]
  by (cases "rows_loop m i bottom seconds") auto

lemma range_length_word:
  "range_bottom r - range_top r + 1 = (word_of_int (range_length r) :: 32 word)"
  by (simp add: range_length_def)

lemma sint_below_max_iff: "(sint (w :: 32 word) < 2147483647) = (sint w \<noteq> 2147483647)"
  using sint_lt [of w] by auto

lemma selection_ok_iff:
  "selection_ok s = (models_ok s \<and> \<not> never_ends (current_selection s))"
  by (auto simp: selection_ok_def models_ok_def never_ends_def list_all_iff list_ex_iff
        sint_below_max_iff)

lemma selection_loop_total:
  assumes "list_all (\<lambda>r. sint (range_bottom r) < sint (range_top r)
                        \<or> contains s (range_model r)) sel"
  shows "selection_loop s sel selected seconds =
           (if never_ends sel then Inl NeverReturns
            else Inr (selected + word_of_int (selectedCount sel),
                      seconds + word_of_int (selectedSeconds s sel)))"
  using assms
proof (induction sel arbitrary: selected seconds)
  case Nil
  show ?case by (simp add: selectedCount_def selectedSeconds_def never_ends_def)
next
  case (Cons r rest)
  from Cons.prems
  have rest: "list_all (\<lambda>r. sint (range_bottom r) < sint (range_top r)
                        \<or> contains s (range_model r)) rest"
    by simp
  show ?case
  proof (cases "sint (range_top r) \<le> sint (range_bottom r)")
    case True
    with Cons.prems obtain m where m: "playlist s (range_model r) = Some m"
      by (auto simp: contains_playlist)
    show ?thesis
    proof (cases "sint (range_bottom r) = 2147483647")
      case max: True
      then show ?thesis
        using True m by (simp add: Let_def rows_loop_never_returns never_ends_def)
    next
      case False
      then have b: "sint (range_bottom r) < 2147483647"
        by (simp add: sint_below_max_iff)
      show ?thesis
        using True m False Cons.IH [OF rest]
        by (simp add: Let_def rows_loop_sum [OF b] range_length_word selectedCount_def
              selectedSeconds_def range_seconds_def never_ends_def)
    qed
  next
    case False
    then have z: "range_seconds s r = 0"
      by (simp add: range_seconds_def split: option.split)
    have "sint (range_top r) < 2147483648" using sint_lt [of "range_top r"] by simp
    with False have nm: "sint (range_bottom r) \<noteq> 2147483647" by simp
    from False z nm show ?thesis
      using Cons.IH [OF rest]
      by (simp add: Let_def range_length_word selectedCount_def selectedSeconds_def
            never_ends_def)
  qed
qed

lemma selection_loop_sums:
  assumes "list_all (\<lambda>r. sint (range_bottom r) < 2147483647
                  \<and> (sint (range_bottom r) < sint (range_top r) \<or> contains s (range_model r))) sel"
  shows "selection_loop s sel selected seconds =
           Inr (selected + word_of_int (selectedCount sel),
                seconds + word_of_int (selectedSeconds s sel))"
  using assms
proof (induction sel arbitrary: selected seconds)
  case Nil
  show ?case by (simp add: selectedCount_def selectedSeconds_def)
next
  case (Cons r rest)
  from Cons.prems
  have rest: "list_all (\<lambda>r. sint (range_bottom r) < 2147483647
                  \<and> (sint (range_bottom r) < sint (range_top r) \<or> contains s (range_model r))) rest"
    and b: "sint (range_bottom r) < 2147483647"
    by simp_all
  show ?case
  proof (cases "sint (range_top r) \<le> sint (range_bottom r)")
    case True
    with Cons.prems obtain m where m: "playlist s (range_model r) = Some m"
      by (auto simp: contains_playlist)
    show ?thesis
      using True m Cons.IH [OF rest]
      by (simp add: Let_def rows_loop_sum [OF b] range_length_word selectedCount_def
            selectedSeconds_def range_seconds_def)
  next
    case False
    then have "range_seconds s r = 0"
      by (simp add: range_seconds_def split: option.split)
    with False show ?thesis
      using Cons.IH [OF rest]
      by (simp add: Let_def range_length_word selectedCount_def selectedSeconds_def)
  qed
qed

lemma as_int32_small: "- 2147483648 \<le> k \<Longrightarrow> k < 2147483648 \<Longrightarrow> as_int32 k = k"
  unfolding as_int32_def
  by (simp add: sint_sbintrunc' signed_take_bit_int_eq_self)

lemma UpdateSummaryText_total:
  assumes "current s = Some cur" and "models_ok s"
  shows "UpdateSummaryText WordyTime s =
     (if never_ends (current_selection s) then Inl NeverReturns
      else Inr (s\<lparr>effects := effects s @ [Emit (SummaryTextChanged
            ((if as_int32 (selectedCount (current_selection s)) > 1
              then arg_int (as_int32 (selectedCount (current_selection s))) @ '' selected of ''
              else [])
             @ (if rowCount cur = 1 then ''1 track'' else arg_int (rowCount cur) @ '' tracks'')
             @ (let duration = (if as_int32 (selectedCount (current_selection s)) > 1
                                then word_of_int (selectedSeconds s (current_selection s))
                                else GetTotalLength cur)
                in if duration \<noteq> 0 then '' - [ '' @ WordyTime duration @ '' ]''
                   else [])))]\<rparr>))"
  using assms
  by (simp add: UpdateSummaryText_def models_ok_def selection_loop_total Let_def as_int32_def
        emit_def)

lemma UpdateSummaryText_eq:
  assumes "current s = Some cur" and "selection_ok s"
  shows "UpdateSummaryText WordyTime s =
     Inr (s\<lparr>effects := effects s @ [Emit (SummaryTextChanged
            ((if as_int32 (selectedCount (current_selection s)) > 1
              then arg_int (as_int32 (selectedCount (current_selection s))) @ '' selected of ''
              else [])
             @ (if rowCount cur = 1 then ''1 track'' else arg_int (rowCount cur) @ '' tracks'')
             @ (let duration = (if as_int32 (selectedCount (current_selection s)) > 1
                                then word_of_int (selectedSeconds s (current_selection s))
                                else GetTotalLength cur)
                in if duration \<noteq> 0 then '' - [ '' @ WordyTime duration @ '' ]'' else [])))]\<rparr>)"
  using assms
  by (simp add: UpdateSummaryText_def selection_ok_def selection_loop_sums Let_def as_int32_def
        emit_def)

text \<open>
  C5: UpdateSummaryText, the current playlist having T rows and every range of the
  selection snapshot that has rows selecting them in a playlist of the index. When a
  range has the largest int as its bottom row, the loop over its rows does not end and
  nothing is emitted. Otherwise: the count n of selected rows is the sum of the range
  lengths (bottom - top + 1) as the C++ int \<^verbatim>\<open>selected\<close> holds it, which is the sum
  itself when that is below 2^31 and the sum wrapped around to 32 bits otherwise. The
  selected seconds are the sum, over the rows of the ranges, of the lengths that are
  positive, as a quint64. The duration d of the summary is the selected seconds when
  n > 1 and the total length of the current playlist otherwise. The log grows by the one
  signal SummaryTextChanged, whose text is, in this order: "n selected of " exactly when
  n > 1; "1 track" when T = 1 and "T tracks" otherwise; " - [ WordyTime(d) ]" exactly
  when d is not 0.
\<close>

theorem UpdateSummaryText_summary:
  assumes "current s = Some cur" and "models_ok s"
    and "n = as_int32 (selectedCount (current_selection s))"
    and "T = rowCount cur"
    and "d = (if n > 1 then word_of_int (selectedSeconds s (current_selection s))
              else GetTotalLength cur)"
  shows "UpdateSummaryText WordyTime s =
     (if never_ends (current_selection s) then Inl NeverReturns
      else Inr (s\<lparr>effects := effects s @ [Emit (SummaryTextChanged
            ((if n > 1 then arg_int n @ '' selected of '' else [])
             @ (if T = 1 then ''1 track'' else arg_int T @ '' tracks'')
             @ (if d \<noteq> 0 then '' - [ '' @ WordyTime d @ '' ]'' else [])))]\<rparr>))
     \<and> (- 2147483648 \<le> selectedCount (current_selection s)
          \<and> selectedCount (current_selection s) < 2147483648
          \<longrightarrow> n = selectedCount (current_selection s))"
  using UpdateSummaryText_total [OF assms(1,2), of WordyTime] assms(3,4,5)
  by (simp add: Let_def as_int32_small)

theorem UpdateSummaryText_summary_witness:
  "current five_tracks =
     Some \<lparr>pl_id = 1,
           pl_items = [LibraryPlaylistItem (song 10 40), SongPlaylistItem (song 11 0),
                       LibraryPlaylistItem (song 12 65), LibraryPlaylistItem (song 10 50),
                       SongPlaylistItem (song 10 30)],
           pl_current_index = 2\<rparr> \<and>
   models_ok five_tracks \<and>
   \<not> never_ends (current_selection five_tracks) \<and>
   selectedCount (current_selection five_tracks) = 3 \<and>
   as_int32 (selectedCount (current_selection five_tracks)) = 3 \<and>
   selectedSeconds five_tracks (current_selection five_tracks) = 105 \<and>
   UpdateSummaryText WordyTime_mss five_tracks =
     Inr (five_tracks\<lparr>effects :=
            [Emit (SummaryTextChanged ''3 selected of 5 tracks - [ 1:45 ]'')]\<rparr>)"
proof -
  let ?cur = "\<lparr>pl_id = 1,
           pl_items = [LibraryPlaylistItem (song 10 40), SongPlaylistItem (song 11 0),
                       LibraryPlaylistItem (song 12 65), LibraryPlaylistItem (song 10 50),
                       SongPlaylistItem (song 10 30)],
           pl_current_index = 2\<rparr>"
  have c: "current five_tracks = Some ?cur"
    by (simp add: five_tracks_def current_def playlist_def)
  have ok: "models_ok five_tracks"
    by (simp add: five_tracks_def models_ok_def contains_def)
  have ends: "\<not> never_ends (current_selection five_tracks)"
    by (simp add: five_tracks_def never_ends_def)
  have cnt: "selectedCount (current_selection five_tracks) = 3"
    by (simp add: five_tracks_def selectedCount_def range_length_def)
  have n: "as_int32 (selectedCount (current_selection five_tracks)) = 3"
    by (simp add: cnt as_int32_small)
  have secs: "selectedSeconds five_tracks (current_selection five_tracks) = 105"
    by (simp add: five_tracks_def selectedSeconds_def range_seconds_def playlist_def
          column_length_def rowCount_def song_def upto_rec1)
  have T: "rowCount ?cur = 5"
    by (simp add: rowCount_def)
  have w: "WordyTime_mss 105 = ''1:45''"
    by (simp add: WordyTime_mss_def digits.simps)
  have e: "effects five_tracks = []"
    by (simp add: five_tracks_def)
  have "UpdateSummaryText WordyTime_mss five_tracks =
     Inr (five_tracks\<lparr>effects :=
            [Emit (SummaryTextChanged ''3 selected of 5 tracks - [ 1:45 ]'')]\<rparr>)"
    using UpdateSummaryText_summary [OF c ok n [symmetric] T [symmetric], of 105 WordyTime_mss]
      secs w e ends
    by (simp add: arg_int_def digits.simps)
  with c ok ends cnt n secs show ?thesis by simp
qed

text \<open>
  With the sum of the range lengths itself for n the claim fails: 2147484 ranges of the
  rows 0 to 999 of a playlist of 1000 rows have 2147484000 rows, more than an int holds;
  \<^verbatim>\<open>selected\<close> is then negative, and the text has no "selected of" clause and shows the
  total length of the playlist.
\<close>

theorem UpdateSummaryText_overflow_counterexample:
  "models_ok many_ranges \<and>
   \<not> never_ends (current_selection many_ranges) \<and>
   selectedCount (current_selection many_ranges) = 2147484000 \<and>
   UpdateSummaryText WordyTime_mss many_ranges =
     Inr (many_ranges\<lparr>effects := [Emit (SummaryTextChanged ''1000 tracks - [ 16:40 ]'')]\<rparr>) \<and>
   UpdateSummaryText WordyTime_mss many_ranges \<noteq>
     Inr (many_ranges\<lparr>effects := [Emit (SummaryTextChanged
            (arg_int (selectedCount (current_selection many_ranges)) @ '' selected of ''
             @ arg_int 1000 @ '' tracks'' @ '' - [ ''
             @ WordyTime_mss (word_of_int (selectedSeconds many_ranges
                                             (current_selection many_ranges)))
             @ '' ]''))]\<rparr>)"
proof -
  let ?cur = "\<lparr>pl_id = 1, pl_items = replicate 1000 (SongPlaylistItem (song 1 1)),
               pl_current_index = - 1\<rparr>"
  have c: "current many_ranges = Some ?cur"
    by (simp add: many_ranges_def current_def playlist_def)
  have ok: "selection_ok many_ranges"
    by (simp add: many_ranges_def selection_ok_def contains_def list_all_iff)
  have cnt: "selectedCount (current_selection many_ranges) = 2147484000"
    by (simp add: many_ranges_def selectedCount_def range_length_def sum_list_replicate)
  have n: "as_int32 (selectedCount (current_selection many_ranges)) = - 2147483296"
    by (simp add: cnt as_int32_def)
  have T: "rowCount ?cur = 1000"
    by (simp add: rowCount_def)
  have total: "GetTotalLength ?cur = 1000"
    by (simp add: GetTotalLength_def song_def sum_list_replicate)
  have w: "WordyTime_mss 1000 = ''16:40''"
    by (simp add: WordyTime_mss_def digits.simps)
  have e: "effects many_ranges = []"
    by (simp add: many_ranges_def)
  have r: "UpdateSummaryText WordyTime_mss many_ranges =
     Inr (many_ranges\<lparr>effects := [Emit (SummaryTextChanged ''1000 tracks - [ 16:40 ]'')]\<rparr>)"
    using UpdateSummaryText_eq [OF c ok, of WordyTime_mss] n T total w e
    by (simp add: arg_int_def digits.simps)
  have first: "arg_int 2147484000 = ''2147484000''"
    by (simp add: arg_int_def digits.simps)
  have "UpdateSummaryText WordyTime_mss many_ranges \<noteq>
     Inr (many_ranges\<lparr>effects := [Emit (SummaryTextChanged
            (arg_int (selectedCount (current_selection many_ranges)) @ '' selected of ''
             @ arg_int 1000 @ '' tracks'' @ '' - [ ''
             @ WordyTime_mss (word_of_int (selectedSeconds many_ranges
                                             (current_selection many_ranges)))
             @ '' ]''))]\<rparr>)"
  proof
    assume "UpdateSummaryText WordyTime_mss many_ranges =
     Inr (many_ranges\<lparr>effects := [Emit (SummaryTextChanged
            (arg_int (selectedCount (current_selection many_ranges)) @ '' selected of ''
             @ arg_int 1000 @ '' tracks'' @ '' - [ ''
             @ WordyTime_mss (word_of_int (selectedSeconds many_ranges
                                             (current_selection many_ranges)))
             @ '' ]''))]\<rparr>)"
    with r have "effects (many_ranges\<lparr>effects :=
                    [Emit (SummaryTextChanged ''1000 tracks - [ 16:40 ]'')]\<rparr>)
        = effects (many_ranges\<lparr>effects := [Emit (SummaryTextChanged
            (arg_int (selectedCount (current_selection many_ranges)) @ '' selected of ''
             @ arg_int 1000 @ '' tracks'' @ '' - [ ''
             @ WordyTime_mss (word_of_int (selectedSeconds many_ranges
                                             (current_selection many_ranges)))
             @ '' ]''))]\<rparr>)"
      by simp
    then show False by (simp add: cnt first)
  qed
  with ok cnt r show ?thesis by (simp add: selection_ok_iff)
qed

subsection \<open>Loading a file\<close>

lemma takeWhile_append_stop:
  "\<not> P c \<Longrightarrow> \<exists>post. xs = takeWhile P (xs @ c # ys) @ post"
  by (induction xs) auto

lemma takeWhile_before_last:
  assumes "c \<in> set f"
  shows "\<exists>post. rev (tl (dropWhile (\<lambda>x. x \<noteq> c) (rev f))) = takeWhile (\<lambda>x. x \<noteq> c) f @ post"
proof -
  from assms have "c \<in> set (rev f)" by simp
  from split_list_first [OF this]
  obtain ys zs where r: "rev f = ys @ c # zs" and ys: "c \<notin> set ys"
    by blast
  from ys have dw: "dropWhile (\<lambda>x. x \<noteq> c) (ys @ c # zs) = c # zs"
    by (auto simp: dropWhile_append3)
  from r have "rev (rev f) = rev (ys @ c # zs)" by simp
  then have f: "f = rev zs @ c # rev ys" by simp
  have "\<exists>post. rev zs = takeWhile (\<lambda>x. x \<noteq> c) (rev zs @ c # rev ys) @ post"
    by (rule takeWhile_append_stop) simp
  with r dw f show ?thesis by simp
qed

lemma baseName_prefix: "\<exists>post. completeBaseName path = baseName path @ post"
proof (cases "CHR ''.'' \<in> set (fileName path)")
  case True
  then show ?thesis
    using takeWhile_before_last [of "CHR ''.''" "fileName path"]
    by (simp add: completeBaseName_def baseName_def)
next
  case False
  have "fileName path =
          takeWhile (\<lambda>c. c \<noteq> CHR ''.'') (fileName path)
            @ dropWhile (\<lambda>c. c \<noteq> CHR ''.'') (fileName path)"
    by (simp only: takeWhile_dropWhile_id)
  then have "\<exists>post. fileName path = takeWhile (\<lambda>c. c \<noteq> CHR ''.'') (fileName path) @ post"
    by (rule exI)
  with False show ?thesis
    by (simp only: completeBaseName_def baseName_def Let_def if_False)
qed

text \<open>
  C6: Load of a file from which the parser reads no song emits Error with the text
  "The playlist 'NAME' was empty or could not be loaded.", NAME being the file's complete
  base name, of which the base name is the beginning, so that the text contains the base
  name; it returns without creating a playlist, and the manager is as before but for the
  log, which has the parser's call and the signal as new entries. When the parser reads
  at least one song, Load is New with the file's base name and those songs.
\<close>

theorem Load_empty_or_New:
  "Load WordyTime [] created filename s =
     Inr (s\<lparr>effects := effects s @
            [Parser_Load filename,
             Emit (Error (''The playlist '' @ [CHR 0x27] @ completeBaseName filename
                          @ [CHR 0x27] @ '' was empty or could not be loaded.''))]\<rparr>)
   \<and> (\<exists>pre post.
        ''The playlist '' @ [CHR 0x27] @ completeBaseName filename
          @ [CHR 0x27] @ '' was empty or could not be loaded.''
        = pre @ baseName filename @ post)
   \<and> (songs \<noteq> [] \<longrightarrow>
        Load WordyTime songs created filename s =
          New WordyTime created (baseName filename) songs (call (Parser_Load filename) s))"
proof -
  obtain post where p: "completeBaseName filename = baseName filename @ post"
    using baseName_prefix by blast
  have "''The playlist '' @ [CHR 0x27] @ completeBaseName filename
          @ [CHR 0x27] @ '' was empty or could not be loaded.''
        = (''The playlist '' @ [CHR 0x27]) @ baseName filename
          @ (post @ [CHR 0x27] @ '' was empty or could not be loaded.'')"
    by (simp add: p)
  then have contained: "\<exists>pre post.
        ''The playlist '' @ [CHR 0x27] @ completeBaseName filename
          @ [CHR 0x27] @ '' was empty or could not be loaded.''
        = pre @ baseName filename @ post"
    by blast
  have empty: "Load WordyTime [] created filename s =
     Inr (s\<lparr>effects := effects s @
            [Parser_Load filename,
             Emit (Error (''The playlist '' @ [CHR 0x27] @ completeBaseName filename
                          @ [CHR 0x27] @ '' was empty or could not be loaded.''))]\<rparr>)"
    by (simp add: Load_def emit_def call_def)
  have "songs \<noteq> [] \<longrightarrow>
        Load WordyTime songs created filename s =
          New WordyTime created (baseName filename) songs (call (Parser_Load filename) s)"
    by (simp add: Load_def)
  with empty contained show ?thesis by blast
qed

theorem Load_empty_or_New_witness:
  "[song 1 40] \<noteq> [] \<and>
   Load WordyTime_mss [song 1 40] 8 ''/home/u/my.list.m3u'' one_playlist =
     New WordyTime_mss 8 ''my'' [song 1 40] (call (Parser_Load ''/home/u/my.list.m3u'') one_playlist) \<and>
   Load WordyTime_mss [] 8 ''/home/u/my.list.m3u'' one_playlist =
     Inr (one_playlist\<lparr>effects := effects one_playlist @
            [Parser_Load ''/home/u/my.list.m3u'',
             Emit (Error (''The playlist '' @ [CHR 0x27] @ ''my.list''
                          @ [CHR 0x27] @ '' was empty or could not be loaded.''))]\<rparr>)"
  using Load_empty_or_New [of WordyTime_mss 8 "''/home/u/my.list.m3u''" one_playlist "[song 1 40]"]
  by (simp add: baseName_def completeBaseName_def fileName_def)

subsection \<open>Creating a playlist\<close>

lemma contains_cong: "playlists s' = playlists s \<Longrightarrow> contains s' k = contains s k"
  by (simp add: contains_def)

lemma selection_ok_cong:
  "playlists s' = playlists s \<Longrightarrow> current_selection s' = current_selection s
     \<Longrightarrow> selection_ok s' = selection_ok s"
  by (simp add: selection_ok_def contains_def)

lemma selection_ok_mono:
  assumes "selection_ok s" and "current_selection s' = current_selection s"
    and "\<And>k. contains s k \<Longrightarrow> contains s' k"
  shows "selection_ok s'"
  using assms unfolding selection_ok_def list_all_iff by auto

lemma UpdateSummaryText_emits:
  assumes "current s \<noteq> None" and "selection_ok s"
  shows "\<exists>summary. UpdateSummaryText WordyTime s = Inr (emit (SummaryTextChanged summary) s)"
proof -
  from assms(1) obtain cur where "current s = Some cur" by auto
  from UpdateSummaryText_eq [OF this assms(2), of WordyTime] show ?thesis
    unfolding emit_def by blast
qed

lemma SetCurrentPlaylist_emits:
  assumes "contains s pid" and "selection_ok s"
  shows "\<exists>summary. SetCurrentPlaylist WordyTime pid s =
           Inr (s\<lparr>current_id := pid,
                   effects := effects s @ [Emit (CurrentChanged pid), Emit (SummaryTextChanged summary)]\<rparr>)"
proof -
  let ?s1 = "emit (CurrentChanged pid) (s\<lparr>current_id := pid\<rparr>)"
  have c: "current ?s1 \<noteq> None"
    using assms(1) by (simp add: current_def emit_def contains_def playlist_def)
  have ok: "selection_ok ?s1"
  proof -
    have "selection_ok ?s1 = selection_ok s"
      by (rule selection_ok_cong) (simp_all add: emit_def)
    with assms(2) show ?thesis by simp
  qed
  from UpdateSummaryText_emits [OF c ok, of WordyTime]
  obtain summary where "UpdateSummaryText WordyTime ?s1 = Inr (emit (SummaryTextChanged summary) ?s1)"
    by blast
  then have "SetCurrentPlaylist WordyTime pid s =
           Inr (s\<lparr>current_id := pid,
                   effects := effects s @ [Emit (CurrentChanged pid), Emit (SummaryTextChanged summary)]\<rparr>)"
    using assms(1) by (simp add: SetCurrentPlaylist_def emit_def)
  then show ?thesis by blast
qed

lemma SetActivePlaylist_unset:
  assumes "contains s pid" and "active_id s = - 1"
  shows "SetActivePlaylist pid s =
           Inr (s\<lparr>active_id := pid, effects := effects s @ [Emit (ActiveChanged pid)]\<rparr>)"
  using assms by (simp add: SetActivePlaylist_def unset_old_active_def emit_def)

lemma AddPlaylist_result:
  assumes "selection_ok s"
  shows "\<exists>s'. AddPlaylist WordyTime pid name s = Inr s'
           \<and> playlists s' = qmap_insert pid \<lparr>data_p = new_Playlist pid, data_name = name\<rparr> (playlists s)
           \<and> current_id s' = (if current_id s = - 1 then pid else current_id s)
           \<and> active_id s' = (if active_id s = - 1 then pid else active_id s)
           \<and> current_selection s' = current_selection s"
proof -
  let ?s1 = "emit (PlaylistAdded pid name)
                 (s\<lparr>playlists :=
                      qmap_insert pid \<lparr>data_p = new_Playlist pid, data_name = name\<rparr> (playlists s)\<rparr>)"
  have c1: "contains ?s1 pid"
    by (simp add: contains_def emit_def map_of_qmap_insert)
  have ok1: "selection_ok ?s1"
    by (rule selection_ok_mono [OF assms]) (auto simp: emit_def contains_def map_of_qmap_insert)
  from SetCurrentPlaylist_emits [OF c1 ok1, of WordyTime]
  obtain summary where cur: "SetCurrentPlaylist WordyTime pid ?s1 =
           Inr (?s1\<lparr>current_id := pid,
                   effects := effects ?s1 @ [Emit (CurrentChanged pid), Emit (SummaryTextChanged summary)]\<rparr>)"
    by blast
  let ?s2 = "?s1\<lparr>current_id := pid,
                 effects := effects ?s1 @ [Emit (CurrentChanged pid), Emit (SummaryTextChanged summary)]\<rparr>"
  have c2: "contains ?s2 pid"
    using c1 by (simp add: contains_def)
  consider (both) "current_id s = - 1" "active_id s = - 1"
    | (cur) "current_id s = - 1" "active_id s \<noteq> - 1"
    | (act) "current_id s \<noteq> - 1" "active_id s = - 1"
    | (neither) "current_id s \<noteq> - 1" "active_id s \<noteq> - 1"
    by blast
  then show ?thesis
  proof cases
    case both
    then show ?thesis
      using cur SetActivePlaylist_unset [OF c2]
      by (simp add: AddPlaylist_def Let_def emit_def)
  next
    case cur
    then show ?thesis
      using \<open>SetCurrentPlaylist WordyTime pid ?s1 = Inr ?s2\<close>
      by (simp add: AddPlaylist_def Let_def emit_def)
  next
    case act
    then show ?thesis
      using SetActivePlaylist_unset [OF c1]
      by (simp add: AddPlaylist_def Let_def emit_def)
  next
    case neither
    then show ?thesis
      by (simp add: AddPlaylist_def Let_def emit_def)
  qed
qed

lemma selection_ok_on_playlist: "selection_ok (on_playlist k f s) = selection_ok s"
  by (simp add: selection_ok_def contains_on_playlist) (simp add: on_playlist_def)

lemma New_result:
  assumes "created \<noteq> - 1" and "selection_ok s"
  shows "\<exists>s'. New WordyTime created name songs s = Inr s'
           \<and> playlists s' =
               qmap_modify created (\<lambda>d. d\<lparr>data_p := InsertSongs songs (data_p d)\<rparr>)
                 (qmap_insert created \<lparr>data_p = new_Playlist created, data_name = name\<rparr> (playlists s))
           \<and> current_id s' = created
           \<and> active_id s' = (if active_id s = - 1 then created else active_id s)
           \<and> current_selection s' = current_selection s"
proof -
  let ?s0 = "call (Backend_CreatePlaylist name) s"
  have ok0: "selection_ok ?s0"
    using assms(2) selection_ok_cong [of ?s0 s] by (simp add: call_def)
  from AddPlaylist_result [OF ok0, of WordyTime created name]
  obtain s1 where s1: "AddPlaylist WordyTime created name ?s0 = Inr s1"
    and p1: "playlists s1 = qmap_insert created \<lparr>data_p = new_Playlist created, data_name = name\<rparr> (playlists ?s0)"
    and a1: "active_id s1 = (if active_id ?s0 = - 1 then created else active_id ?s0)"
    and sel1: "current_selection s1 = current_selection ?s0"
    by blast
  let ?s2 = "on_playlist created (InsertSongs songs) s1"
  have c2: "contains ?s2 created"
    using p1 by (simp add: contains_on_playlist) (simp add: contains_def map_of_qmap_insert)
  have "selection_ok s1"
    by (rule selection_ok_mono [OF ok0 sel1]) (simp add: contains_def p1 map_of_qmap_insert)
  then have ok2: "selection_ok ?s2"
    by (simp add: selection_ok_on_playlist)
  from SetCurrentPlaylist_emits [OF c2 ok2, of WordyTime]
  obtain summary where "SetCurrentPlaylist WordyTime created ?s2 =
           Inr (?s2\<lparr>current_id := created,
                   effects := effects ?s2 @ [Emit (CurrentChanged created), Emit (SummaryTextChanged summary)]\<rparr>)"
    by blast
  then show ?thesis
    using assms(1) s1 p1 a1 sel1
    by (simp add: New_def Let_def on_playlist_def call_def)
qed


text \<open>
  New asks the backend for an id. When the backend answers -1, New ends in qFatal:
  the process stops and there is no manager state afterwards. For any other id, every
  range of the selection snapshot ending below the largest int and, when it has rows,
  selecting them in a playlist of the index, New returns: the index maps the id to a
  playlist bound to that id, holding one item for each of the songs in order, under the
  given name; the other entries of the index are as before; the current cursor is the
  new id.
\<close>

lemma New_registers_when_selection_ok:
  "(created = - 1 \<longrightarrow>
      New WordyTime created name songs s = Inl (Fatal ''Couldn't create playlist''))
   \<and> (created \<noteq> - 1 \<and> selection_ok s \<longrightarrow>
       (\<exists>s'. New WordyTime created name songs s = Inr s'
          \<and> map_of (playlists s') created =
               Some \<lparr>data_p = \<lparr>pl_id = created, pl_items = map SongPlaylistItem songs,
                                pl_current_index = - 1\<rparr>,
                     data_name = name\<rparr>
          \<and> (\<forall>k. k \<noteq> created \<longrightarrow> map_of (playlists s') k = map_of (playlists s) k)
          \<and> current_id s' = created))"
proof (intro conjI impI)
  assume "created = - 1"
  then show "New WordyTime created name songs s = Inl (Fatal ''Couldn't create playlist'')"
    by (simp add: New_def)
next
  assume a: "created \<noteq> - 1 \<and> selection_ok s"
  from New_result [of created s WordyTime name songs] a
  obtain s' where n: "New WordyTime created name songs s = Inr s'"
    and p: "playlists s' =
               qmap_modify created (\<lambda>d. d\<lparr>data_p := InsertSongs songs (data_p d)\<rparr>)
                 (qmap_insert created \<lparr>data_p = new_Playlist created, data_name = name\<rparr> (playlists s))"
    and c: "current_id s' = created"
    by blast
  have "map_of (playlists s') created =
               Some \<lparr>data_p = \<lparr>pl_id = created, pl_items = map SongPlaylistItem songs,
                                pl_current_index = - 1\<rparr>,
                     data_name = name\<rparr>"
    by (simp add: p map_of_qmap_modify map_of_qmap_insert InsertSongs_def new_Playlist_def)
  moreover have "\<forall>k. k \<noteq> created \<longrightarrow> map_of (playlists s') k = map_of (playlists s) k"
    by (simp add: p map_of_qmap_modify map_of_qmap_insert)
  ultimately show "\<exists>s'. New WordyTime created name songs s = Inr s'
          \<and> map_of (playlists s') created =
               Some \<lparr>data_p = \<lparr>pl_id = created, pl_items = map SongPlaylistItem songs,
                                pl_current_index = - 1\<rparr>,
                     data_name = name\<rparr>
          \<and> (\<forall>k. k \<noteq> created \<longrightarrow> map_of (playlists s') k = map_of (playlists s) k)
          \<and> current_id s' = created"
    using n c by blast
qed

lemma New_registers_when_selection_ok_example:
  "New WordyTime_mss (- 1) ''B'' [song 1 40] one_playlist = Inl (Fatal ''Couldn't create playlist'')
   \<and> (8::int) \<noteq> - 1 \<and> selection_ok one_playlist
   \<and> (\<exists>s'. New WordyTime_mss 8 ''B'' [song 1 40] one_playlist = Inr s'
          \<and> map_of (playlists s') 8 =
               Some \<lparr>data_p = \<lparr>pl_id = 8, pl_items = [SongPlaylistItem (song 1 40)],
                                pl_current_index = - 1\<rparr>,
                     data_name = ''B''\<rparr>
          \<and> map_of (playlists s') 7 = map_of (playlists one_playlist) 7
          \<and> current_id s' = 8)"
proof -
  have ok: "selection_ok one_playlist"
    by (simp add: one_playlist_def selection_ok_def)
  have ne: "(7::int) \<noteq> 8" by simp
  from New_registers_when_selection_ok [of "- 1" WordyTime_mss "''B''" "[song 1 40]" one_playlist]
  have fatal: "New WordyTime_mss (- 1) ''B'' [song 1 40] one_playlist
                 = Inl (Fatal ''Couldn't create playlist'')"
    by simp
  from New_registers_when_selection_ok [of 8 WordyTime_mss "''B''" "[song 1 40]" one_playlist] ok
  have "\<exists>s'. New WordyTime_mss 8 ''B'' [song 1 40] one_playlist = Inr s'
          \<and> map_of (playlists s') 8 =
               Some \<lparr>data_p = \<lparr>pl_id = 8, pl_items = [SongPlaylistItem (song 1 40)],
                                pl_current_index = - 1\<rparr>,
                     data_name = ''B''\<rparr>
          \<and> (\<forall>k. k \<noteq> 8 \<longrightarrow> map_of (playlists s') k = map_of (playlists one_playlist) k)
          \<and> current_id s' = 8"
    by simp
  then obtain s' where s': "New WordyTime_mss 8 ''B'' [song 1 40] one_playlist = Inr s'"
    "map_of (playlists s') 8 =
               Some \<lparr>data_p = \<lparr>pl_id = 8, pl_items = [SongPlaylistItem (song 1 40)],
                                pl_current_index = - 1\<rparr>,
                     data_name = ''B''\<rparr>"
    "current_id s' = 8"
    and others: "\<forall>k. k \<noteq> 8 \<longrightarrow> map_of (playlists s') k = map_of (playlists one_playlist) k"
    by blast
  from others ne have "map_of (playlists s') 7 = map_of (playlists one_playlist) 7"
    by blast
  with s' have "\<exists>s'. New WordyTime_mss 8 ''B'' [song 1 40] one_playlist = Inr s'
          \<and> map_of (playlists s') 8 =
               Some \<lparr>data_p = \<lparr>pl_id = 8, pl_items = [SongPlaylistItem (song 1 40)],
                                pl_current_index = - 1\<rparr>,
                     data_name = ''B''\<rparr>
          \<and> map_of (playlists s') 7 = map_of (playlists one_playlist) 7
          \<and> current_id s' = 8"
    by blast
  with fatal ok show ?thesis by simp
qed


subsection \<open>Catalog synchronisation\<close>

lemma fold_update_at:
  assumes "distinct rows"
  shows "length (fold (\<lambda>i xs. xs[i := g (xs ! i)]) rows xs) = length xs \<and>
         (\<forall>j < length xs. fold (\<lambda>i xs. xs[i := g (xs ! i)]) rows xs ! j =
                            (if j \<in> set rows then g (xs ! j) else xs ! j))"
  using assms
proof (induction rows arbitrary: xs)
  case Nil
  show ?case by simp
next
  case (Cons i rows)
  from Cons.prems have d: "distinct rows" and i: "i \<notin> set rows" by simp_all
  from i have ne: "\<And>j. j \<in> set rows \<Longrightarrow> i \<noteq> j" by auto
  from Cons.IH [OF d, of "xs[i := g (xs ! i)]"] ne
  show ?case by auto
qed

lemma pl_items_fold_set_item_metadata:
  "pl_items (fold (set_item_metadata sg) rows pl) =
     fold (\<lambda>i xs. xs[i := SetMetadata sg (xs ! i)]) rows (pl_items pl)"
  by (induction rows arbitrary: pl) (simp_all add: set_item_metadata_def)

lemma fold_set_item_metadata_frame:
  "pl_id (fold (set_item_metadata sg) rows pl) = pl_id pl \<and>
   pl_current_index (fold (set_item_metadata sg) rows pl) = pl_current_index pl"
  by (induction rows arbitrary: pl) (simp_all add: set_item_metadata_def)

lemma update_playlist_items:
  "pl_items (update_playlist sg pl) = map (sync_step sg) (pl_items pl)"
proof (rule nth_equalityI)
  let ?rows = "library_items_by_id (song_id sg) pl"
  have d: "distinct ?rows" by (simp add: library_items_by_id_def)
  note f = fold_update_at [OF d, of "SetMetadata sg" "pl_items pl"]
  show "length (pl_items (update_playlist sg pl)) = length (map (sync_step sg) (pl_items pl))"
    using f by (simp add: update_playlist_def pl_items_fold_set_item_metadata)
  fix j assume "j < length (pl_items (update_playlist sg pl))"
  then have j: "j < length (pl_items pl)"
    using f by (simp add: update_playlist_def pl_items_fold_set_item_metadata)
  with f have "pl_items (update_playlist sg pl) ! j =
      (if j \<in> set ?rows then SetMetadata sg (pl_items pl ! j) else pl_items pl ! j)"
    by (simp add: update_playlist_def pl_items_fold_set_item_metadata)
  also have "\<dots> = sync_step sg (pl_items pl ! j)"
    using j by (cases "pl_items pl ! j") (auto simp: library_items_by_id_def sync_step_def)
  finally show "pl_items (update_playlist sg pl) ! j = map (sync_step sg) (pl_items pl) ! j"
    using j by simp
qed

lemma update_playlist_eq:
  "update_playlist sg pl = pl\<lparr>pl_items := map (sync_step sg) (pl_items pl)\<rparr>"
  using update_playlist_items [of sg pl] fold_set_item_metadata_frame [of sg _ pl]
  by (simp add: update_playlist_def)

lemma fold_sync_step:
  "fold sync_step songs it = sync_item songs it"
proof (induction songs rule: rev_induct)
  case Nil
  show ?case by (cases it) simp_all
next
  case (snoc sg songs)
  show ?case
  proof (cases it)
    case (SongPlaylistItem m)
    with snoc show ?thesis by (simp add: sync_step_def)
  next
    case (LibraryPlaylistItem m)
    show ?thesis
    proof (cases "find (\<lambda>x. song_id x = song_id m) (rev songs)")
      case None
      with snoc LibraryPlaylistItem show ?thesis by (simp add: sync_step_def)
    next
      case (Some x)
      then have "song_id x = song_id m" by (auto simp: find_Some_iff)
      with Some snoc LibraryPlaylistItem show ?thesis by (simp add: sync_step_def)
    qed
  qed
qed

lemma sync_item_idem: "sync_item songs (sync_item songs it) = sync_item songs it"
proof (cases it)
  case (SongPlaylistItem m)
  then show ?thesis by simp
next
  case (LibraryPlaylistItem m)
  show ?thesis
  proof (cases "find (\<lambda>x. song_id x = song_id m) (rev songs)")
    case None
    with LibraryPlaylistItem show ?thesis by simp
  next
    case (Some x)
    then have "song_id x = song_id m" by (auto simp: find_Some_iff)
    with Some LibraryPlaylistItem show ?thesis by simp
  qed
qed

lemma sync_item_Nil: "sync_item [] = (\<lambda>it. it)"
proof
  fix it show "sync_item [] it = it" by (cases it) simp_all
qed

lemma SongsDiscovered_eq:
  "SongsDiscovered songs s = s\<lparr>playlists := sync_playlists songs (playlists s)\<rparr>"
proof (induction songs arbitrary: s rule: rev_induct)
  case Nil
  have "sync_playlists [] (playlists s) = playlists s"
    by (simp add: sync_playlists_def sync_item_Nil)
  then show ?case by (simp add: SongsDiscovered_def)
next
  case (snoc sg songs)
  have "SongsDiscovered (songs @ [sg]) s = update_playlists sg (SongsDiscovered songs s)"
    by (simp add: SongsDiscovered_def)
  also have "\<dots> = update_playlists sg (s\<lparr>playlists := sync_playlists songs (playlists s)\<rparr>)"
    by (simp only: snoc.IH)
  also have "\<dots> = s\<lparr>playlists := sync_playlists (songs @ [sg]) (playlists s)\<rparr>"
    by (simp add: update_playlists_def sync_playlists_def update_playlist_eq
                  fold_sync_step [symmetric] comp_def)
  finally show ?case .
qed

lemma sync_playlists_idem: "sync_playlists songs (sync_playlists songs m) = sync_playlists songs m"
  by (simp add: sync_playlists_def comp_def sync_item_idem)


lemma find_Some_in_set: "find P xs = Some x \<Longrightarrow> x \<in> set xs \<and> P x"
  by (induction xs) (auto split: if_splits)

lemma sync_item_hits:
  assumes "song_id m \<in> song_id ` set songs"
  shows "\<exists>sg. sg \<in> set songs \<and> song_id sg = song_id m
              \<and> sync_item songs (LibraryPlaylistItem m) = LibraryPlaylistItem sg"
proof (cases "find (\<lambda>x. song_id x = song_id m) (rev songs)")
  case None
  then have "\<forall>x \<in> set songs. song_id x \<noteq> song_id m"
    by (simp add: find_None_iff)
  with assms show ?thesis by auto
next
  case (Some x)
  from find_Some_in_set [OF this] have "x \<in> set songs \<and> song_id x = song_id m"
    by simp
  with Some show ?thesis by simp
qed

text \<open>
  C7: SongsDiscovered leaves the manager as it is but for the items of the playlists of
  the index: every catalog-backed item, in every playlist, takes the record of the last
  discovered song that has the id the item references, and any other item stays as it
  is. So an item that references the id of a discovered song holds, afterwards, a
  discovered song with that id. Running SongsDiscovered a second time with the same
  songs changes nothing.
\<close>

theorem SongsDiscovered_sync_idempotent:
  "SongsDiscovered songs s = s\<lparr>playlists := sync_playlists songs (playlists s)\<rparr>
   \<and> (\<forall>n < length (playlists s). \<forall>i < length (items_of s n). \<forall>m.
         items_of s n ! i = LibraryPlaylistItem m \<and> song_id m \<in> song_id ` set songs \<longrightarrow>
         (\<exists>sg. sg \<in> set songs \<and> song_id sg = song_id m
               \<and> items_of (SongsDiscovered songs s) n ! i = LibraryPlaylistItem sg))
   \<and> SongsDiscovered songs (SongsDiscovered songs s) = SongsDiscovered songs s"
proof (intro conjI allI impI)
  show "SongsDiscovered songs s = s\<lparr>playlists := sync_playlists songs (playlists s)\<rparr>"
    by (rule SongsDiscovered_eq)
next
  fix n i m
  assume n: "n < length (playlists s)" and i: "i < length (items_of s n)"
    and m: "items_of s n ! i = LibraryPlaylistItem m \<and> song_id m \<in> song_id ` set songs"
  from sync_item_hits [of m songs] m
  obtain sg where sg: "sg \<in> set songs" "song_id sg = song_id m"
    "sync_item songs (LibraryPlaylistItem m) = LibraryPlaylistItem sg"
    by blast
  have "items_of (SongsDiscovered songs s) n ! i = sync_item songs (items_of s n ! i)"
    using n i by (simp add: SongsDiscovered_eq items_of_def sync_playlists_def)
  with m sg show "\<exists>sg. sg \<in> set songs \<and> song_id sg = song_id m
               \<and> items_of (SongsDiscovered songs s) n ! i = LibraryPlaylistItem sg"
    by auto
next
  show "SongsDiscovered songs (SongsDiscovered songs s) = SongsDiscovered songs s"
    by (simp add: SongsDiscovered_eq sync_playlists_idem)
qed

theorem SongsDiscovered_sync_idempotent_witness:
  "(0::nat) < length (playlists five_tracks) \<and> 3 < length (items_of five_tracks 0) \<and>
   items_of five_tracks 0 ! 3 = LibraryPlaylistItem (song 10 50) \<and>
   song_id (song 10 50) \<in> song_id ` set [discovered] \<and>
   items_of (SongsDiscovered [discovered] five_tracks) 0 =
     [LibraryPlaylistItem discovered, SongPlaylistItem (song 11 0),
      LibraryPlaylistItem (song 12 65), LibraryPlaylistItem discovered,
      SongPlaylistItem (song 10 30)] \<and>
   SongsDiscovered [discovered] (SongsDiscovered [discovered] five_tracks) =
     SongsDiscovered [discovered] five_tracks"
proof -
  note inst = SongsDiscovered_sync_idempotent [of "[discovered]" five_tracks]
  have pre: "(0::nat) < length (playlists five_tracks)" "3 < length (items_of five_tracks 0)"
    "items_of five_tracks 0 ! 3 = LibraryPlaylistItem (song 10 50)"
    "song_id (song 10 50) \<in> song_id ` set [discovered]"
    by (simp_all add: five_tracks_def items_of_def song_def discovered_def)
  from inst have "SongsDiscovered [discovered] five_tracks =
      five_tracks\<lparr>playlists := sync_playlists [discovered] (playlists five_tracks)\<rparr>"
    by (rule conjunct1)
  then have items: "items_of (SongsDiscovered [discovered] five_tracks) 0 =
     [LibraryPlaylistItem discovered, SongPlaylistItem (song 11 0),
      LibraryPlaylistItem (song 12 65), LibraryPlaylistItem discovered,
      SongPlaylistItem (song 10 30)]"
    by (simp add: items_of_def five_tracks_def sync_playlists_def song_def discovered_def)
  from inst have "SongsDiscovered [discovered] (SongsDiscovered [discovered] five_tracks) =
     SongsDiscovered [discovered] five_tracks"
    by (rule conjunct2 [THEN conjunct2])
  with pre items show ?thesis by simp
qed

subsection \<open>The invariant\<close>

text \<open>
  The invariant holds when Init returns, and every member function that returns keeps
  it, Remove too unless the playlist it removes is the first entry of the index and a
  cursor is on it.
\<close>

lemma UpdateSummaryText_frame:
  assumes "UpdateSummaryText WordyTime s = Inr s'"
  shows "playlists s' = playlists s \<and> current_id s' = current_id s \<and> active_id s' = active_id s
         \<and> current_selection s' = current_selection s"
  using assms
  by (auto simp: UpdateSummaryText_def Let_def emit_def split: option.splits sum.splits prod.splits)

lemma SetCurrentPlaylist_frame:
  assumes "SetCurrentPlaylist WordyTime pid s = Inr s'"
  shows "playlists s' = playlists s \<and> current_id s' = pid \<and> active_id s' = active_id s
         \<and> current_selection s' = current_selection s \<and> contains s pid"
proof -
  from assms have c: "contains s pid"
    and u: "UpdateSummaryText WordyTime (emit (CurrentChanged pid) (s\<lparr>current_id := pid\<rparr>)) = Inr s'"
    by (auto simp: SetCurrentPlaylist_def split: if_splits)
  from UpdateSummaryText_frame [OF u] c show ?thesis by (simp add: emit_def)
qed

lemma map_fst_qmap_modify: "map fst (qmap_modify k f m) = map fst m"
  by (simp add: qmap_modify_def)

lemma SetActivePlaylist_frame:
  assumes "SetActivePlaylist pid s = Inr s'"
  shows "map fst (playlists s') = map fst (playlists s) \<and> current_id s' = current_id s
         \<and> active_id s' = pid \<and> current_selection s' = current_selection s \<and> contains s pid
         \<and> (\<forall>k. contains s' k = contains s k)"
  using assms
  by (auto simp: SetActivePlaylist_def unset_old_active_def emit_def call_def on_playlist_def
        map_fst_qmap_modify contains_def map_of_qmap_modify
      split: if_splits option.splits)

lemma invariant_SetCurrentPlaylist:
  "SetCurrentPlaylist WordyTime pid s = Inr s' \<Longrightarrow> invariant s \<Longrightarrow> invariant s'"
  by (drule SetCurrentPlaylist_frame) (simp add: invariant_def contains_def)

lemma invariant_SetActivePlaylist:
  assumes "SetActivePlaylist pid s = Inr s'" and "invariant s"
  shows "invariant s'"
proof -
  note f = SetActivePlaylist_frame [OF assms(1)]
  from f have "map fst (playlists s') = map fst (playlists s)" by simp
  with assms(2) have "playlists s' \<noteq> []" by (auto simp: invariant_def)
  with f assms(2) show ?thesis by (simp add: invariant_def)
qed


lemma emit_sel:
  "playlists (emit sg s) = playlists s" "current_id (emit sg s) = current_id s"
  "active_id (emit sg s) = active_id s" "current_selection (emit sg s) = current_selection s"
  by (simp_all add: emit_def)

lemma call_sel:
  "playlists (call c s) = playlists s" "current_id (call c s) = current_id s"
  "active_id (call c s) = active_id s" "current_selection (call c s) = current_selection s"
  by (simp_all add: call_def)

lemma AddPlaylist_frame:
  assumes "AddPlaylist WordyTime pid name s = Inr s'"
  shows "playlists s' = qmap_insert pid \<lparr>data_p = new_Playlist pid, data_name = name\<rparr> (playlists s)
         \<and> current_id s' = (if current_id s = - 1 then pid else current_id s)
         \<and> active_id s' = (if active_id s = - 1 then pid else active_id s)
         \<and> current_selection s' = current_selection s"
proof -
  let ?s1 = "emit (PlaylistAdded pid name)
                 (s\<lparr>playlists :=
                      qmap_insert pid \<lparr>data_p = new_Playlist pid, data_name = name\<rparr> (playlists s)\<rparr>)"
  from assms obtain s2 where
    s2: "(if current_id s = - 1 then SetCurrentPlaylist WordyTime pid ?s1 else Inr ?s1) = Inr s2"
    and s': "(if active_id s2 = - 1 then SetActivePlaylist pid s2 else Inr s2) = Inr s'"
    by (auto simp: AddPlaylist_def Let_def emit_sel split: sum.splits)
  have f2: "playlists s2 = playlists ?s1 \<and> active_id s2 = active_id s
            \<and> current_id s2 = (if current_id s = - 1 then pid else current_id s)
            \<and> current_selection s2 = current_selection s"
  proof (cases "current_id s = - 1")
    case True
    with s2 have "SetCurrentPlaylist WordyTime pid ?s1 = Inr s2" by simp
    from SetCurrentPlaylist_frame [OF this] True show ?thesis by (simp add: emit_def)
  next
    case False
    with s2 show ?thesis by (auto simp: emit_def)
  qed
  have c2: "contains s2 pid"
    using f2 by (simp add: contains_def emit_def map_of_qmap_insert)
  show ?thesis
  proof (cases "active_id s = - 1")
    case True
    with f2 have "active_id s2 = - 1" by simp
    with s' SetActivePlaylist_unset [OF c2 this] f2 True show ?thesis
      by (auto simp: emit_def)
  next
    case False
    with s' f2 show ?thesis by (auto simp: emit_def)
  qed
qed

lemma invariant_AddPlaylist:
  assumes "AddPlaylist WordyTime pid name s = Inr s'"
    and "current_id s = - 1 \<or> contains s (current_id s)"
    and "active_id s = - 1 \<or> contains s (active_id s)"
  shows "invariant s'"
proof -
  note f = AddPlaylist_frame [OF assms(1)]
  have k: "\<And>k. contains s' k = (k = pid \<or> contains s k)"
    using f by (simp add: contains_def map_of_qmap_insert)
  have "map_of (playlists s') pid \<noteq> None"
    using f by (simp add: map_of_qmap_insert)
  then have "playlists s' \<noteq> []" by auto
  with f k assms(2,3) show ?thesis by (auto simp: invariant_def)
qed

lemma invariant_AddPlaylists:
  assumes "AddPlaylists WordyTime stored s = Inr s'"
    and "current_id s = - 1 \<or> contains s (current_id s)"
    and "active_id s = - 1 \<or> contains s (active_id s)"
  shows "(stored = [] \<and> s' = s) \<or> invariant s'"
  using assms
proof (induction stored arbitrary: s)
  case Nil
  then show ?case by simp
next
  case (Cons p ps)
  from Cons.prems(1) obtain s1 where a: "AddPlaylist WordyTime (fst p) (snd p) s = Inr s1"
    and r: "AddPlaylists WordyTime ps s1 = Inr s'"
    by (auto split: sum.splits)
  from invariant_AddPlaylist [OF a Cons.prems(2,3)] have i1: "invariant s1" .
  then have "current_id s1 = - 1 \<or> contains s1 (current_id s1)"
    "active_id s1 = - 1 \<or> contains s1 (active_id s1)"
    by (simp_all add: invariant_def)
  from Cons.IH [OF r this] i1 show ?case by auto
qed

lemma invariant_on_playlist: "invariant (on_playlist k f s) = invariant s"
proof -
  have "(playlists (on_playlist k f s) = []) = (playlists s = [])"
    by (simp add: on_playlist_def qmap_modify_def)
  moreover have "current_id (on_playlist k f s) = current_id s"
    "active_id (on_playlist k f s) = active_id s"
    by (simp_all add: on_playlist_def)
  ultimately show ?thesis
    by (simp add: invariant_def contains_on_playlist)
qed

lemma invariant_New:
  assumes "New WordyTime created name songs s = Inr s'"
    and "current_id s = - 1 \<or> contains s (current_id s)"
    and "active_id s = - 1 \<or> contains s (active_id s)"
  shows "invariant s'"
proof -
  let ?s0 = "call (Backend_CreatePlaylist name) s"
  from assms(1) obtain s1 where a: "AddPlaylist WordyTime created name ?s0 = Inr s1"
    and c: "SetCurrentPlaylist WordyTime created (on_playlist created (InsertSongs songs) s1) = Inr s'"
    by (auto simp: New_def Let_def split: if_splits sum.splits)
  have "invariant s1"
    using assms(2,3) by (intro invariant_AddPlaylist [OF a]) (simp_all add: call_def contains_def)
  then have "invariant (on_playlist created (InsertSongs songs) s1)"
    by (simp add: invariant_on_playlist)
  with invariant_SetCurrentPlaylist [OF c] show ?thesis .
qed

lemma invariant_Init:
  assumes "Init WordyTime stored created PlaylistManager_ctor = Inr s"
  shows "invariant s"
proof -
  let ?s0 = "call Backend_GetAllPlaylists PlaylistManager_ctor"
  from assms obtain s1 where a: "AddPlaylists WordyTime stored ?s0 = Inr s1"
    and n: "(if playlists s1 = [] then New WordyTime created ''Playlist'' [] s1 else Inr s1) = Inr s"
    by (auto simp: Init_def split: sum.splits)
  have c0: "current_id ?s0 = - 1 \<or> contains ?s0 (current_id ?s0)"
    "active_id ?s0 = - 1 \<or> contains ?s0 (active_id ?s0)"
    by (simp_all add: call_def PlaylistManager_ctor_def)
  from invariant_AddPlaylists [OF a c0] have s1: "s1 = ?s0 \<or> invariant s1" by auto
  show ?thesis
  proof (cases "playlists s1 = []")
    case True
    with n have new: "New WordyTime created ''Playlist'' [] s1 = Inr s" by simp
    from True s1 have "s1 = ?s0" by (auto simp: invariant_def)
    then have "current_id s1 = - 1 \<or> contains s1 (current_id s1)"
      "active_id s1 = - 1 \<or> contains s1 (active_id s1)"
      using c0 by simp_all
    from invariant_New [OF new this] show ?thesis .
  next
    case False
    with n have "s = s1" by simp
    moreover from False s1 have "invariant s1"
      by (auto simp: call_def PlaylistManager_ctor_def)
    ultimately show ?thesis by simp
  qed
qed


lemma invariant_Rename:
  assumes "Rename pid new_name s = Inr s'" and "invariant s"
  shows "invariant s'"
proof -
  from assms(1) have s': "s' = emit (PlaylistRenamed pid new_name)
      ((call (Backend_RenamePlaylist pid new_name) s)
         \<lparr>playlists := qmap_modify pid (\<lambda>d. d\<lparr>data_name := new_name\<rparr>) (playlists s)\<rparr>)"
    by (auto simp: Rename_def Let_def call_sel split: if_splits)
  have "\<And>k. contains s' k = contains s k"
    by (simp add: s' contains_def emit_def call_def map_of_qmap_modify)
  moreover have "(playlists s' = []) = (playlists s = [])"
    by (simp add: s' emit_def call_def qmap_modify_def)
  moreover have "current_id s' = current_id s" "active_id s' = active_id s"
    by (simp_all add: s' emit_def call_def)
  ultimately show ?thesis using assms(2) by (simp add: invariant_def)
qed

lemma invariant_SelectionChanged:
  assumes "SelectionChanged WordyTime selection s = Inr s'" and "invariant s"
  shows "invariant s'"
proof -
  from assms(1) have "UpdateSummaryText WordyTime (s\<lparr>current_selection := selection\<rparr>) = Inr s'"
    by (simp add: SelectionChanged_def)
  from UpdateSummaryText_frame [OF this] assms(2) show ?thesis
    by (simp add: invariant_def contains_def)
qed

lemma invariant_ChangePlaylistOrder: "invariant (ChangePlaylistOrder ids s) = invariant s"
  by (simp add: invariant_def ChangePlaylistOrder_def call_def contains_def)

lemma map_of_sync_playlists:
  "(map_of (sync_playlists songs m) k = None) = (map_of m k = None)"
  by (induction m) (auto simp: sync_playlists_def)

lemma invariant_SongsDiscovered: "invariant (SongsDiscovered songs s) = invariant s"
  by (simp add: SongsDiscovered_eq invariant_def contains_def map_of_sync_playlists)
     (simp add: sync_playlists_def)

lemma invariant_Load:
  assumes "Load WordyTime parsed created filename s = Inr s'" and "invariant s"
  shows "invariant s'"
proof (cases "parsed = []")
  case True
  with assms(1) have "s' = emit (Error (''The playlist '' @ [CHR 0x27] @ completeBaseName filename
                          @ [CHR 0x27] @ '' was empty or could not be loaded.''))
                     (call (Parser_Load filename) s)"
    by (simp add: Load_def)
  with assms(2) show ?thesis
    by (simp add: invariant_def contains_def emit_def call_def)
next
  case False
  with assms(1) have n: "New WordyTime created (baseName filename) parsed
                        (call (Parser_Load filename) s) = Inr s'"
    by (simp add: Load_def)
  from assms(2) show ?thesis
    by (intro invariant_New [OF n]) (simp_all add: invariant_def contains_def call_def)
qed

lemma map_of_qmap_take:
  "map_of (qmap_take k m) k' = (if k' = k then None else map_of m k')"
  by (induction m) (auto simp: qmap_take_def)

lemma qmap_take_qmap_modify: "qmap_take k (qmap_modify k f m) = qmap_take k m"
  by (induction m) (auto simp: qmap_take_def qmap_modify_def)

lemma qmap_take_not_empty:
  assumes "distinct (map fst m)" and "1 < length m"
  shows "qmap_take k m \<noteq> []"
proof -
  from assms(2) obtain a b rest where m: "m = a # b # rest"
    by (cases m; cases "tl m") auto
  with assms(1) have "fst a \<noteq> fst b" by auto
  then have "fst a \<noteq> k \<or> fst b \<noteq> k" by auto
  then show ?thesis by (auto simp: m qmap_take_def)
qed

lemma SetActivePlaylist_of_active:
  assumes "SetActivePlaylist k s = Inr s'"
  shows "qmap_take (active_id s) (playlists s') = qmap_take (active_id s) (playlists s)
         \<and> current_id s' = current_id s \<and> active_id s' = k
         \<and> current_selection s' = current_selection s \<and> contains s k"
  using assms
  by (auto simp: SetActivePlaylist_def unset_old_active_def emit_def call_def on_playlist_def
        qmap_take_qmap_modify split: if_splits option.splits)

lemma Remove_frame:
  assumes "Remove WordyTime pid s = Inr s'" and "1 < length (playlists s)"
  shows "playlists s' = qmap_take pid (playlists s)
         \<and> current_id s' = (if pid = current_id s then pl_id (data_p (snd (hd (playlists s))))
                            else current_id s)
         \<and> active_id s' = (if pid = active_id s then pl_id (data_p (snd (hd (playlists s))))
                           else active_id s)
         \<and> current_selection s' = current_selection s
         \<and> (pid = current_id s \<or> pid = active_id s
              \<longrightarrow> contains s (pl_id (data_p (snd (hd (playlists s))))))"
proof -
  let ?s0 = "call (Backend_RemovePlaylist pid) s"
  let ?next = "pl_id (data_p (snd (hd (playlists s))))"
  from assms(2) obtain first rest where l: "playlists s = first # rest"
    by (cases "playlists s") auto
  from assms obtain s1 s2 where
    s1: "(if pid = active_id s then SetActivePlaylist ?next ?s0 else Inr ?s0) = Inr s1"
    and s2: "(if pid = current_id s1 then SetCurrentPlaylist WordyTime ?next s1 else Inr s1) = Inr s2"
    and s': "s' = emit (PlaylistRemoved pid) (s2\<lparr>playlists := qmap_take pid (playlists s2)\<rparr>)"
    by (auto simp: Remove_def Let_def call_sel l split: if_splits sum.splits)
  have f1: "qmap_take pid (playlists s1) = qmap_take pid (playlists s)
            \<and> current_id s1 = current_id s
            \<and> active_id s1 = (if pid = active_id s then ?next else active_id s)
            \<and> current_selection s1 = current_selection s
            \<and> (pid = active_id s \<longrightarrow> contains s ?next)"
  proof (cases "pid = active_id s")
    case True
    with s1 have "SetActivePlaylist ?next ?s0 = Inr s1" by simp
    from SetActivePlaylist_of_active [OF this] True show ?thesis
      by (simp add: call_sel contains_def)
  next
    case False
    with s1 show ?thesis by (auto simp: call_sel)
  qed
  have f2: "playlists s2 = playlists s1 \<and> active_id s2 = active_id s1
            \<and> current_id s2 = (if pid = current_id s then ?next else current_id s)
            \<and> current_selection s2 = current_selection s1
            \<and> (pid = current_id s \<longrightarrow> contains s1 ?next)"
  proof (cases "pid = current_id s")
    case True
    with s2 f1 have "SetCurrentPlaylist WordyTime ?next s1 = Inr s2" by simp
    from SetCurrentPlaylist_frame [OF this] True show ?thesis by simp
  next
    case False
    with s2 f1 show ?thesis by auto
  qed
  have c: "pid = current_id s \<longrightarrow> contains s ?next"
  proof
    assume "pid = current_id s"
    with f2 have "contains s1 ?next" by simp
    then have "map_of (playlists s1) ?next \<noteq> None" by (simp add: contains_def)
    show "contains s ?next"
    proof (cases "pid = active_id s")
      case True
      with f1 show ?thesis by simp
    next
      case False
      with s1 have "s1 = ?s0" by simp
      with \<open>contains s1 ?next\<close> show ?thesis by (simp add: contains_def call_sel)
    qed
  qed
  from f1 f2 c show ?thesis by (simp add: s' emit_sel)
qed

lemma invariant_Remove:
  assumes "Remove WordyTime pid s = Inr s'" and "invariant s"
    and "distinct (map fst (playlists s))"
    and "pl_id (data_p (snd (hd (playlists s)))) \<noteq> pid
         \<or> (pid \<noteq> current_id s \<and> pid \<noteq> active_id s)"
  shows "invariant s'"
proof (cases "1 < length (playlists s)")
  case False
  with assms(1) have "s' = s"
    by (auto simp: Remove_def split: if_splits)
  with assms(2) show ?thesis by simp
next
  case True
  note f = Remove_frame [OF assms(1) True]
  have k: "\<And>k. contains s' k = (k \<noteq> pid \<and> contains s k)"
    using f by (auto simp: contains_def map_of_qmap_take)
  have ne: "playlists s' \<noteq> []"
    using f qmap_take_not_empty [OF assms(3) True] by simp
  from assms(2) have cs: "contains s (current_id s)" "contains s (active_id s)"
    by (simp_all add: invariant_def)
  have "contains s' (current_id s')"
    using f assms(4) cs(1) by (auto simp: k)
  moreover have "contains s' (active_id s')"
    using f assms(4) cs(2) by (auto simp: k)
  ultimately show ?thesis using ne by (simp add: invariant_def)
qed


lemma Remove_first_dangling:
  assumes "Remove WordyTime pid s = Inr s'" and "1 < length (playlists s)"
    and "pl_id (data_p (snd (hd (playlists s)))) = pid"
  shows "(pid = active_id s \<longrightarrow> active_id s' = pid \<and> \<not> contains s' pid)
         \<and> (pid = current_id s \<longrightarrow> current_id s' = pid \<and> \<not> contains s' pid)"
  using Remove_frame [OF assms(1,2)] assms(3)
  by (simp add: contains_def map_of_qmap_take)

subsection \<open>Removing the first playlist of the index\<close>

text \<open>
  Remove takes as next id the id of the first entry of the index, the entry to remove
  included. When the playlist to remove is that first entry and a cursor is on it, the
  cursor is set to the same id again and the entry is taken out after that.

  C1: the invariant (the index holds a playlist, both cursors are keys of the index)
  holds after Init with the stored playlists 1 and 2, both cursors on 1. Remove(1)
  returns normally in that state and leaves playlist 2 alone in the index with both
  cursors still 1, which is no key: the invariant is broken.
\<close>

theorem Remove_first_breaks_invariant:
  "Init WordyTime [(1, ''A''), (2, ''B'')] created PlaylistManager_ctor = Inr two_playlists \<and>
   invariant two_playlists \<and>
   Remove WordyTime 1 two_playlists = Inr both_dangling \<and>
   \<not> contains both_dangling (current_id both_dangling) \<and>
   \<not> contains both_dangling (active_id both_dangling) \<and>
   \<not> invariant both_dangling"
  by (simp add: Init_def AddPlaylist_def Remove_def SetCurrentPlaylist_def SetActivePlaylist_def
        unset_old_active_def UpdateSummaryText_def PlaylistManager_ctor_def emit_def call_def
        contains_def current_def active_def playlist_def new_Playlist_def rowCount_def
        GetTotalLength_def arg_int_def digits.simps qmap_take_def two_playlists_def
        both_dangling_def invariant_def Let_def)

text \<open>
  C2: with the playlists 1 and 2 in the index and the active cursor on 1 (the current one
  on 2), Remove(1) leaves the active cursor on 1, the id removed, which is no key of the
  index any more; with the current cursor on 1 and the active one on 2, it leaves the
  current cursor on 1.
\<close>

theorem Remove_first_leaves_cursor_on_removed:
  "cursors (Inr two_playlists) = Inr ([1, 2], 1, 1) \<and>
   cursors (SetCurrentPlaylist WordyTime 2 two_playlists) = Inr ([1, 2], 2, 1) \<and>
   cursors (and_then (SetCurrentPlaylist WordyTime 2 two_playlists) (Remove WordyTime 1))
     = Inr ([2], 2, 1) \<and>
   cursors (SetActivePlaylist 2 two_playlists) = Inr ([1, 2], 1, 2) \<and>
   cursors (and_then (SetActivePlaylist 2 two_playlists) (Remove WordyTime 1))
     = Inr ([2], 1, 2)"
  by (simp add: cursors_def and_then_def Remove_def SetCurrentPlaylist_def SetActivePlaylist_def
        unset_old_active_def UpdateSummaryText_def emit_def call_def
        contains_def current_def active_def playlist_def new_Playlist_def rowCount_def
        GetTotalLength_def arg_int_def digits.simps qmap_take_def qmap_modify_def on_playlist_def
        set_current_index_def two_playlists_def Let_def)

end
